theory Spec2Isabelle
  imports Main "HOL-Library.Word"
begin

section \<open>Data model\<close>

text \<open>
  The backend keeps two tables, \<open>users\<close> and \<open>flows\<close>, behind an SQLAlchemy session.
  A table is the list of its rows in storage order. Timestamps are readings of the
  database clock (\<open>func.now()\<close>), passed to every operation that commits.
  Python strings are \<open>string\<close>; the Cyrillic literals of the source are written as their
  UTF-8 bytes.
\<close>

type_synonym timestamp = nat

text \<open>\<open>app/models/flow.py\<close>, class \<open>Flow\<close>: the seven columns of table \<open>flows\<close>.\<close>

record flow =
  f_id :: int
  flow_id :: string
  f_name :: string
  f_description :: "string option"
  f_user_id :: int
  f_created_at :: timestamp
  f_updated_at :: "timestamp option"

text \<open>
  Modelled from the spec: \<open>app/models/user.py\<close> is not part of the sources. The columns
  are those of the spec's User entity and of the response schema \<open>User\<close> in
  \<open>app/schemas/user.py\<close> (id, username, email, is_active, created_at, updated_at), with
  the same timestamp semantics as \<open>Flow\<close>.
\<close>

record user =
  u_id :: int
  username :: string
  email :: "string option"
  is_active :: bool
  u_created_at :: timestamp
  u_updated_at :: "timestamp option"

text \<open>\<open>app/schemas/user.py\<close>: \<open>UserCreate\<close> and \<open>UserUpdate\<close>. Every field of
  \<open>UserUpdate\<close> is \<open>Optional\<close> with default \<open>None\<close>: in the payload the outer \<open>None\<close> is
  "field not set", \<open>Some None\<close> is "field set to null" and \<open>Some (Some v)\<close> is "field set
  to \<open>v\<close>".\<close>

record user_create =
  uc_username :: string
  uc_email :: "string option"
  uc_is_active :: bool

record user_update =
  uu_username :: "string option option"
  uu_email :: "string option option"
  uu_is_active :: "bool option option"

text \<open>
  Modelled from the spec: \<open>app/schemas/flow.py\<close> is not part of the sources.
  \<open>FlowCreate\<close> carries the four fields that \<open>create_flow\<close> reads from it. \<open>FlowUpdate\<close> is
  the partial-update payload over the descriptive fields of a Flow (name: string,
  description: optional string); the outer \<open>None\<close> is "field not set".
\<close>

record flow_create =
  fc_flow_id :: string
  fc_name :: string
  fc_description :: "string option"
  fc_user_id :: int

record flow_update =
  fu_name :: "string option"
  fu_description :: "string option option"

text \<open>
  The database behind the session. Whether the engine enforces the foreign key
  \<open>flows.user_id \<rightarrow> users.id\<close> is decided in \<open>app/core/database.py\<close>, which is not part of
  the sources, so it is a field of the state.
\<close>

record session =
  users :: "user list"
  flows :: "flow list"
  fk_enforced :: bool

datatype error = IntegrityError | HTTPException nat string

section \<open>The store\<close>

text \<open>An integer primary key without a value gets the largest key of the table plus one
  (1 on an empty table).\<close>

definition next_id :: "int list \<Rightarrow> int" where
  "next_id ks = (case ks of [] \<Rightarrow> 1 | _ \<Rightarrow> Max (set ks) + 1)"

text \<open>\<open>db.add(Flow(...)); db.commit(); db.refresh(...)\<close>: one INSERT into \<open>flows\<close>.
  \<open>flow_id\<close> is \<open>unique=True\<close>; \<open>created_at\<close> takes the server default, \<open>updated_at\<close> has no
  default and stays NULL. A violated constraint raises and leaves the table as it was.\<close>

definition add_flow :: "session \<Rightarrow> timestamp \<Rightarrow> string \<Rightarrow> string \<Rightarrow> string option \<Rightarrow> int
    \<Rightarrow> error + (flow \<times> session)" where
  "add_flow db now fid nm descr uid =
     (let row = \<lparr>f_id = next_id (map f_id (flows db)), flow_id = fid, f_name = nm,
                 f_description = descr, f_user_id = uid, f_created_at = now,
                 f_updated_at = None\<rparr>
      in if fid \<in> set (map flow_id (flows db)) then Inl IntegrityError
         else if fk_enforced db \<and> uid \<notin> set (map u_id (users db)) then Inl IntegrityError
         else Inr (row, db\<lparr>flows := flows db @ [row]\<rparr>))"

text \<open>\<open>db.add(User(...)); db.commit(); db.refresh(...)\<close>: one INSERT into \<open>users\<close>;
  \<open>username\<close> is unique.\<close>

definition add_user :: "session \<Rightarrow> timestamp \<Rightarrow> string \<Rightarrow> string option \<Rightarrow> bool
    \<Rightarrow> error + (user \<times> session)" where
  "add_user db now un em act =
     (let row = \<lparr>u_id = next_id (map u_id (users db)), username = un, email = em,
                 is_active = act, u_created_at = now, u_updated_at = None\<rparr>
      in if un \<in> set (map username (users db)) then Inl IntegrityError
         else Inr (row, db\<lparr>users := users db @ [row]\<rparr>))"

text \<open>What the primary keys and the unique columns give: no two rows of a table share an id,
  no two Flows a \<open>flow_id\<close>, no two Users a \<open>username\<close>.\<close>

definition wf_store :: "session \<Rightarrow> bool" where
  "wf_store db \<longleftrightarrow> distinct (map f_id (flows db)) \<and> distinct (map flow_id (flows db)) \<and>
                 distinct (map u_id (users db)) \<and> distinct (map username (users db))"

section \<open>\<open>app/crud/flow.py\<close>\<close>

definition get_flow :: "session \<Rightarrow> string \<Rightarrow> flow option" where
  "get_flow db fid = find (\<lambda>f. flow_id f = fid) (flows db)"

text \<open>\<open>.offset(skip).limit(limit)\<close> on the default SQLite engine: a negative offset is 0 and
  a negative limit is no limit.\<close>

definition paginate :: "int \<Rightarrow> int \<Rightarrow> 'a list \<Rightarrow> 'a list" where
  "paginate skip limit xs =
     (let rest = drop (nat skip) xs in if limit < 0 then rest else take (nat limit) rest)"

definition get_all_flows :: "session \<Rightarrow> int \<Rightarrow> int \<Rightarrow> flow list" where
  "get_all_flows db skip limit = paginate skip limit (flows db)"

definition get_flows_by_user :: "session \<Rightarrow> int \<Rightarrow> int \<Rightarrow> int \<Rightarrow> flow list" where
  "get_flows_by_user db user_id skip limit =
     paginate skip limit (filter (\<lambda>f. f_user_id f = user_id) (flows db))"

text \<open>The keyword defaults of the signature, \<open>skip: int = 0, limit: int = 100\<close>: an argument
  left out is \<open>None\<close>.\<close>

definition get_all_flows_kw :: "session \<Rightarrow> int option \<Rightarrow> int option \<Rightarrow> flow list" where
  "get_all_flows_kw db skip limit =
     get_all_flows db (case skip of None \<Rightarrow> 0 | Some s \<Rightarrow> s)
                      (case limit of None \<Rightarrow> 100 | Some l \<Rightarrow> l)"

definition create_flow :: "session \<Rightarrow> timestamp \<Rightarrow> flow_create \<Rightarrow> error + (flow \<times> session)" where
  "create_flow db now fl =
     add_flow db now (fc_flow_id fl) (fc_name fl) (fc_description fl) (fc_user_id fl)"

text \<open>\<open>flow_update.dict(exclude_unset=True)\<close>: the fields that were set, as assignments.\<close>

datatype flow_field = SetName string | SetDescription "string option"

definition dict_exclude_unset :: "flow_update \<Rightarrow> flow_field list" where
  "dict_exclude_unset u =
     (case fu_name u of None \<Rightarrow> [] | Some n \<Rightarrow> [SetName n]) @
     (case fu_description u of None \<Rightarrow> [] | Some d \<Rightarrow> [SetDescription d])"

fun setattr :: "flow \<Rightarrow> flow_field \<Rightarrow> flow" where
  "setattr f (SetName n) = f\<lparr>f_name := n\<rparr>"
| "setattr f (SetDescription d) = f\<lparr>f_description := d\<rparr>"

text \<open>\<open>db.commit(); db.refresh(db_flow)\<close> after the assignments. The unit of work emits an
  UPDATE only for a row with a column whose value differs from the loaded one; the
  \<open>onupdate=func.now()\<close> of \<open>updated_at\<close> fires with that UPDATE and not otherwise.\<close>

definition commit_flow :: "session \<Rightarrow> timestamp \<Rightarrow> flow \<Rightarrow> flow \<Rightarrow> flow \<times> session" where
  "commit_flow db now loaded obj =
     (if obj = loaded then (loaded, db)
      else let row = obj\<lparr>f_updated_at := Some now\<rparr>
           in (row, db\<lparr>flows := map (\<lambda>r. if f_id r = f_id loaded then row else r) (flows db)\<rparr>))"

definition update_flow :: "session \<Rightarrow> timestamp \<Rightarrow> string \<Rightarrow> flow_update \<Rightarrow> flow option \<times> session" where
  "update_flow db now fid flow_update =
     (case get_flow db fid of
        None \<Rightarrow> (None, db)
      | Some db_flow \<Rightarrow>
          (let update_data = dict_exclude_unset flow_update;
               obj = foldl setattr db_flow update_data;
               (row, db') = commit_flow db now db_flow obj
           in (Some row, db')))"

text \<open>The object after the assignments of a payload, in closed form.\<close>

definition assigned :: "flow \<Rightarrow> flow_update \<Rightarrow> flow" where
  "assigned f u = f\<lparr>f_name := (case fu_name u of None \<Rightarrow> f_name f | Some n \<Rightarrow> n),
                     f_description := (case fu_description u of None \<Rightarrow> f_description f | Some d \<Rightarrow> d)\<rparr>"

definition delete_flow :: "session \<Rightarrow> string \<Rightarrow> bool \<times> session" where
  "delete_flow db fid =
     (case get_flow db fid of
        Some db_flow \<Rightarrow> (True, db\<lparr>flows := filter (\<lambda>r. f_id r \<noteq> f_id db_flow) (flows db)\<rparr>)
      | None \<Rightarrow> (False, db))"

text \<open>\<open>uuid.uuid4().hex\<close>: the 128-bit value printed as 32 lower-case hexadecimal digits
  (\<open>'%032x' % self.int\<close>). The random value itself is an input of the model.\<close>

definition hex_digit :: "nat \<Rightarrow> char" where
  "hex_digit d = ''0123456789abcdef'' ! d"

fun hex_pad :: "nat \<Rightarrow> nat \<Rightarrow> string" where
  "hex_pad 0 v = []"
| "hex_pad (Suc n) v = hex_pad n (v div 16) @ [hex_digit (v mod 16)]"

definition uuid_hex :: "128 word \<Rightarrow> string" where
  "uuid_hex u = hex_pad 32 (unat u)"

text \<open>\<open>f"flow_{uuid.uuid4().hex[:8]}"\<close>\<close>

definition gen_flow_id :: "128 word \<Rightarrow> string" where
  "gen_flow_id u = ''flow_'' @ take 8 (uuid_hex u)"

text \<open>The name and description of \<open>create_default_flow_for_user\<close> (in English: "My first
  flow", "Automatically created flow").\<close>

definition default_flow_name :: string where
  "default_flow_name =
   [CHR 0xD0, CHR 0x9C, CHR 0xD0, CHR 0xBE, CHR 0xD0, CHR 0xB9, CHR 0x20, CHR 0xD0,
    CHR 0xBF, CHR 0xD0, CHR 0xB5, CHR 0xD1, CHR 0x80, CHR 0xD0, CHR 0xB2, CHR 0xD1,
    CHR 0x8B, CHR 0xD0, CHR 0xB9, CHR 0x20, CHR 0xD0, CHR 0xBF, CHR 0xD0, CHR 0xBE,
    CHR 0xD1, CHR 0x82, CHR 0xD0, CHR 0xBE, CHR 0xD0, CHR 0xBA]"

definition default_flow_description :: string where
  "default_flow_description =
   [CHR 0xD0, CHR 0x90, CHR 0xD0, CHR 0xB2, CHR 0xD1, CHR 0x82, CHR 0xD0, CHR 0xBE,
    CHR 0xD0, CHR 0xBC, CHR 0xD0, CHR 0xB0, CHR 0xD1, CHR 0x82, CHR 0xD0, CHR 0xB8,
    CHR 0xD1, CHR 0x87, CHR 0xD0, CHR 0xB5, CHR 0xD1, CHR 0x81, CHR 0xD0, CHR 0xBA,
    CHR 0xD0, CHR 0xB8, CHR 0x20, CHR 0xD1, CHR 0x81, CHR 0xD0, CHR 0xBE, CHR 0xD0,
    CHR 0xB7, CHR 0xD0, CHR 0xB4, CHR 0xD0, CHR 0xB0, CHR 0xD0, CHR 0xBD, CHR 0xD0,
    CHR 0xBD, CHR 0xD1, CHR 0x8B, CHR 0xD0, CHR 0xB9, CHR 0x20, CHR 0xD0, CHR 0xBF,
    CHR 0xD0, CHR 0xBE, CHR 0xD1, CHR 0x82, CHR 0xD0, CHR 0xBE, CHR 0xD0, CHR 0xBA]"

definition create_default_flow_for_user :: "session \<Rightarrow> timestamp \<Rightarrow> 128 word \<Rightarrow> int
    \<Rightarrow> error + (flow \<times> session)" where
  "create_default_flow_for_user db now u user_id =
     (let fid = gen_flow_id u;
          default_flow = \<lparr>fc_flow_id = fid, fc_name = default_flow_name,
                          fc_description = Some default_flow_description,
                          fc_user_id = user_id\<rparr>
      in create_flow db now default_flow)"

section \<open>\<open>app/api/endpoints/flows.py\<close>\<close>

text \<open>The details of the two HTTP errors (in English: "A flow with this ID already exists",
  "Flow not found").\<close>

definition detail_flow_exists :: string where
  "detail_flow_exists =
   [CHR 0xD0, CHR 0x9F, CHR 0xD0, CHR 0xBE, CHR 0xD1, CHR 0x82, CHR 0xD0, CHR 0xBE,
    CHR 0xD0, CHR 0xBA, CHR 0x20, CHR 0xD1, CHR 0x81, CHR 0x20, CHR 0xD1, CHR 0x82,
    CHR 0xD0, CHR 0xB0, CHR 0xD0, CHR 0xBA, CHR 0xD0, CHR 0xB8, CHR 0xD0, CHR 0xBC,
    CHR 0x20, CHR 0x49, CHR 0x44, CHR 0x20, CHR 0xD1, CHR 0x83, CHR 0xD0, CHR 0xB6,
    CHR 0xD0, CHR 0xB5, CHR 0x20, CHR 0xD1, CHR 0x81, CHR 0xD1, CHR 0x83, CHR 0xD1,
    CHR 0x89, CHR 0xD0, CHR 0xB5, CHR 0xD1, CHR 0x81, CHR 0xD1, CHR 0x82, CHR 0xD0,
    CHR 0xB2, CHR 0xD1, CHR 0x83, CHR 0xD0, CHR 0xB5, CHR 0xD1, CHR 0x82]"

definition detail_flow_not_found :: string where
  "detail_flow_not_found =
   [CHR 0xD0, CHR 0x9F, CHR 0xD0, CHR 0xBE, CHR 0xD1, CHR 0x82, CHR 0xD0, CHR 0xBE,
    CHR 0xD0, CHR 0xBA, CHR 0x20, CHR 0xD0, CHR 0xBD, CHR 0xD0, CHR 0xB5, CHR 0x20,
    CHR 0xD0, CHR 0xBD, CHR 0xD0, CHR 0xB0, CHR 0xD0, CHR 0xB9, CHR 0xD0, CHR 0xB4,
    CHR 0xD0, CHR 0xB5, CHR 0xD0, CHR 0xBD]"

text \<open>An endpoint returns its response or the error raised, and the store it leaves.

  \<open>get_flows(user_id: int = None, skip, limit)\<close>: \<open>if user_id:\<close> is Python truthiness, false
  for \<open>None\<close> and for 0.\<close>

definition api_get_flows :: "session \<Rightarrow> int option \<Rightarrow> int \<Rightarrow> int \<Rightarrow> flow list" where
  "api_get_flows db user_id skip limit =
     (case user_id of
        Some n \<Rightarrow> if n \<noteq> 0 then get_flows_by_user db n skip limit
                  else get_all_flows db skip limit
      | None \<Rightarrow> get_all_flows db skip limit)"

definition api_create_flow :: "session \<Rightarrow> timestamp \<Rightarrow> flow_create \<Rightarrow> (error + flow) \<times> session" where
  "api_create_flow db now fl =
     (case get_flow db (fc_flow_id fl) of
        Some db_flow \<Rightarrow> (Inl (HTTPException 400 detail_flow_exists), db)
      | None \<Rightarrow>
          (case create_flow db now fl of
             Inl e \<Rightarrow> (Inl e, db)
           | Inr (row, db') \<Rightarrow> (Inr row, db')))"

definition api_update_flow :: "session \<Rightarrow> timestamp \<Rightarrow> string \<Rightarrow> flow_update
    \<Rightarrow> (error + flow) \<times> session" where
  "api_update_flow db now fid fl =
     (case update_flow db now fid fl of
        (None, db') \<Rightarrow> (Inl (HTTPException 404 detail_flow_not_found), db')
      | (Some db_flow, db') \<Rightarrow> (Inr db_flow, db'))"

definition api_delete_flow :: "session \<Rightarrow> string \<Rightarrow> (error + unit) \<times> session" where
  "api_delete_flow db fid =
     (case delete_flow db fid of
        (False, db') \<Rightarrow> (Inl (HTTPException 404 detail_flow_not_found), db')
      | (True, db') \<Rightarrow> (Inr (), db'))"

section \<open>User operations\<close>

text \<open>
  Modelled from the spec: \<open>app/crud/user.py\<close> is not part of the sources. \<open>create_user\<close>
  makes a new User with a fresh id and \<open>created_at\<close>; \<open>get_user\<close> looks a User up by id;
  \<open>update_user\<close> has the partial-update semantics that \<open>update_flow\<close> has, over the
  fields of \<open>UserUpdate\<close>. The store keeps \<open>username\<close> unique, and since \<open>username\<close> is a
  required string and \<open>is_active\<close> a boolean, it refuses a null in either.
\<close>

definition create_user :: "session \<Rightarrow> timestamp \<Rightarrow> user_create \<Rightarrow> error + (user \<times> session)" where
  "create_user db now usr = add_user db now (uc_username usr) (uc_email usr) (uc_is_active usr)"

definition get_user :: "session \<Rightarrow> int \<Rightarrow> user option" where
  "get_user db uid = find (\<lambda>x. u_id x = uid) (users db)"

datatype user_field = SetUsername "string option" | SetEmail "string option"
  | SetIsActive "bool option"

definition user_dict_exclude_unset :: "user_update \<Rightarrow> user_field list" where
  "user_dict_exclude_unset u =
     (case uu_username u of None \<Rightarrow> [] | Some n \<Rightarrow> [SetUsername n]) @
     (case uu_email u of None \<Rightarrow> [] | Some e \<Rightarrow> [SetEmail e]) @
     (case uu_is_active u of None \<Rightarrow> [] | Some a \<Rightarrow> [SetIsActive a])"

text \<open>The attributes of the loaded object that the payload can assign; after an assignment
  any of them may hold \<open>None\<close>.\<close>

record user_attrs =
  a_username :: "string option"
  a_email :: "string option"
  a_is_active :: "bool option"

definition attrs_of :: "user \<Rightarrow> user_attrs" where
  "attrs_of x = \<lparr>a_username = Some (username x), a_email = email x,
                 a_is_active = Some (is_active x)\<rparr>"

fun user_setattr :: "user_attrs \<Rightarrow> user_field \<Rightarrow> user_attrs" where
  "user_setattr x (SetUsername n) = x\<lparr>a_username := n\<rparr>"
| "user_setattr x (SetEmail e) = x\<lparr>a_email := e\<rparr>"
| "user_setattr x (SetIsActive a) = x\<lparr>a_is_active := a\<rparr>"

definition commit_user :: "session \<Rightarrow> timestamp \<Rightarrow> user \<Rightarrow> user_attrs
    \<Rightarrow> error + (user \<times> session)" where
  "commit_user db now loaded obj =
     (if obj = attrs_of loaded then Inr (loaded, db)
      else case (a_username obj, a_is_active obj) of
             (Some n, Some a) \<Rightarrow>
               if n \<noteq> username loaded \<and> n \<in> set (map username (users db))
               then Inl IntegrityError
               else let row = loaded\<lparr>username := n, email := a_email obj, is_active := a,
                                      u_updated_at := Some now\<rparr>
                    in Inr (row, db\<lparr>users := map (\<lambda>r. if u_id r = u_id loaded then row else r)
                                                  (users db)\<rparr>)
           | _ \<Rightarrow> Inl IntegrityError)"

definition update_user :: "session \<Rightarrow> timestamp \<Rightarrow> int \<Rightarrow> user_update
    \<Rightarrow> error + (user option \<times> session)" where
  "update_user db now uid user_update =
     (case get_user db uid of
        None \<Rightarrow> Inr (None, db)
      | Some db_user \<Rightarrow>
          (let update_data = user_dict_exclude_unset user_update;
               obj = foldl user_setattr (attrs_of db_user) update_data
           in case commit_user db now db_user obj of
                Inl e \<Rightarrow> Inl e
              | Inr (row, db') \<Rightarrow> Inr (Some row, db')))"

section \<open>Bootstrap: \<open>init_db.py\<close> and \<open>main.py\<close>\<close>

text \<open>The name and description of the bootstrap Flow (in English: "Test flow",
  "Automatically created flow for testing").\<close>

definition bootstrap_flow_name :: string where
  "bootstrap_flow_name =
   [CHR 0xD0, CHR 0xA2, CHR 0xD0, CHR 0xB5, CHR 0xD1, CHR 0x81, CHR 0xD1, CHR 0x82,
    CHR 0xD0, CHR 0xBE, CHR 0xD0, CHR 0xB2, CHR 0xD1, CHR 0x8B, CHR 0xD0, CHR 0xB9,
    CHR 0x20, CHR 0xD0, CHR 0xBF, CHR 0xD0, CHR 0xBE, CHR 0xD1, CHR 0x82, CHR 0xD0,
    CHR 0xBE, CHR 0xD0, CHR 0xBA]"

definition bootstrap_flow_description :: string where
  "bootstrap_flow_description =
   [CHR 0xD0, CHR 0x90, CHR 0xD0, CHR 0xB2, CHR 0xD1, CHR 0x82, CHR 0xD0, CHR 0xBE,
    CHR 0xD0, CHR 0xBC, CHR 0xD0, CHR 0xB0, CHR 0xD1, CHR 0x82, CHR 0xD0, CHR 0xB8,
    CHR 0xD1, CHR 0x87, CHR 0xD0, CHR 0xB5, CHR 0xD1, CHR 0x81, CHR 0xD0, CHR 0xBA,
    CHR 0xD0, CHR 0xB8, CHR 0x20, CHR 0xD1, CHR 0x81, CHR 0xD0, CHR 0xBE, CHR 0xD0,
    CHR 0xB7, CHR 0xD0, CHR 0xB4, CHR 0xD0, CHR 0xB0, CHR 0xD0, CHR 0xBD, CHR 0xD0,
    CHR 0xBD, CHR 0xD1, CHR 0x8B, CHR 0xD0, CHR 0xB9, CHR 0x20, CHR 0xD0, CHR 0xBF,
    CHR 0xD0, CHR 0xBE, CHR 0xD1, CHR 0x82, CHR 0xD0, CHR 0xBE, CHR 0xD0, CHR 0xBA,
    CHR 0x20, CHR 0xD0, CHR 0xB4, CHR 0xD0, CHR 0xBB, CHR 0xD1, CHR 0x8F, CHR 0x20,
    CHR 0xD1, CHR 0x82, CHR 0xD0, CHR 0xB5, CHR 0xD1, CHR 0x81, CHR 0xD1, CHR 0x82,
    CHR 0xD0, CHR 0xB8, CHR 0xD1, CHR 0x80, CHR 0xD0, CHR 0xBE, CHR 0xD0, CHR 0xB2,
    CHR 0xD0, CHR 0xB0, CHR 0xD0, CHR 0xBD, CHR 0xD0, CHR 0xB8, CHR 0xD1, CHR 0x8F]"

definition root_user_data :: user_create where
  "root_user_data = \<lparr>uc_username = ''root'', uc_email = Some ''root@krok-mvp.local'',
                     uc_is_active = True\<rparr>"

text \<open>
  \<open>init_database()\<close> of \<open>init_db.py\<close>. The tables exist (\<open>create_all\<close>). The result is the
  store after the run; an exception inside the \<open>try\<close> is printed and swallowed, and
  \<open>rollback\<close> keeps what was committed before it.
\<close>

definition init_database :: "session \<Rightarrow> 128 word \<Rightarrow> timestamp \<Rightarrow> session" where
  "init_database db u now =
     (case find (\<lambda>x. username x = ''root'') (users db) of
        None \<Rightarrow>
          (case add_user db now (uc_username root_user_data) (uc_email root_user_data)
                  (uc_is_active root_user_data) of
             Inl e \<Rightarrow> db
           | Inr (root_user, db1) \<Rightarrow>
               (case add_flow db1 now (gen_flow_id u) bootstrap_flow_name
                       (Some bootstrap_flow_description) (u_id root_user) of
                  Inl e \<Rightarrow> db1
                | Inr (default_flow, db2) \<Rightarrow> db2))
      | Some root_user \<Rightarrow>
          (let root_flows = filter (\<lambda>f. f_user_id f = u_id root_user) (flows db)
           in if root_flows = [] then
                (case add_flow db now (gen_flow_id u) bootstrap_flow_name
                        (Some bootstrap_flow_description) (u_id root_user) of
                   Inl e \<Rightarrow> db
                 | Inr (default_flow, db1) \<Rightarrow> db1)
              else db))"

text \<open>\<open>lifespan(app)\<close> of \<open>main.py\<close>, up to the \<open>yield\<close>: the bootstrap that runs when the
  application starts.\<close>

definition lifespan :: "session \<Rightarrow> 128 word \<Rightarrow> timestamp \<Rightarrow> session" where
  "lifespan db u now =
     (case find (\<lambda>x. username x = ''root'') (users db) of
        None \<Rightarrow>
          (case create_user db now root_user_data of
             Inl e \<Rightarrow> db
           | Inr (root_user, db1) \<Rightarrow>
               (let default_flow_data =
                      \<lparr>fc_flow_id = gen_flow_id u, fc_name = bootstrap_flow_name,
                       fc_description = Some bootstrap_flow_description,
                       fc_user_id = u_id root_user\<rparr>
                in case create_flow db1 now default_flow_data of
                     Inl e \<Rightarrow> db1
                   | Inr (default_flow, db2) \<Rightarrow> db2))
      | Some root_user \<Rightarrow> db)"

section \<open>Observations on a store\<close>

text \<open>The Flows a User owns, the number of Users named "root", whether the first such
  User owns a Flow, and a sequence of bootstrap runs, each with its random value and its
  clock reading.\<close>

definition flows_of :: "session \<Rightarrow> int \<Rightarrow> flow list" where
  "flows_of db uid = filter (\<lambda>f. f_user_id f = uid) (flows db)"

definition root_count :: "session \<Rightarrow> nat" where
  "root_count db = length (filter (\<lambda>x. username x = ''root'') (users db))"

definition root_owns_flow :: "session \<Rightarrow> bool" where
  "root_owns_flow db =
     (case find (\<lambda>x. username x = ''root'') (users db) of
        None \<Rightarrow> False
      | Some r \<Rightarrow> flows_of db (u_id r) \<noteq> [])"

definition run_many :: "(session \<Rightarrow> 128 word \<Rightarrow> timestamp \<Rightarrow> session) \<Rightarrow> session
    \<Rightarrow> (128 word \<times> timestamp) list \<Rightarrow> session" where
  "run_many boot db runs = foldl (\<lambda>d (u, t). boot d u t) db runs"

text \<open>The default Flow that a bootstrap run inserts for the User with id \<open>uid\<close>.\<close>

definition bootstrap_flow :: "session \<Rightarrow> 128 word \<Rightarrow> timestamp \<Rightarrow> int \<Rightarrow> flow" where
  "bootstrap_flow db u now uid =
     \<lparr>f_id = next_id (map f_id (flows db)), flow_id = gen_flow_id u,
      f_name = bootstrap_flow_name, f_description = Some bootstrap_flow_description,
      f_user_id = uid, f_created_at = now, f_updated_at = None\<rparr>"

text \<open>The attributes of a User object after the assignments of a payload, in closed form,
  and the payloads that the store refuses for a stored User: a null username or
  \<open>is_active\<close>, or a new username that is in use.\<close>

definition user_assigned :: "user \<Rightarrow> user_update \<Rightarrow> user_attrs" where
  "user_assigned x u =
     \<lparr>a_username = (case uu_username u of None \<Rightarrow> Some (username x) | Some n \<Rightarrow> n),
      a_email = (case uu_email u of None \<Rightarrow> email x | Some e \<Rightarrow> e),
      a_is_active = (case uu_is_active u of None \<Rightarrow> Some (is_active x) | Some a \<Rightarrow> a)\<rparr>"

definition user_update_refused :: "session \<Rightarrow> user \<Rightarrow> user_update \<Rightarrow> bool" where
  "user_update_refused db x u \<longleftrightarrow>
     uu_username u = Some None \<or> uu_is_active u = Some None \<or>
     (case uu_username u of
        Some (Some n) \<Rightarrow> n \<noteq> username x \<and> n \<in> set (map username (users db))
      | _ \<Rightarrow> False)"

section \<open>Example stores\<close>

definition demo_root :: user where
  "demo_root = \<lparr>u_id = 1, username = ''root'', email = Some ''root@krok-mvp.local'',
                is_active = True, u_created_at = 1, u_updated_at = None\<rparr>"

definition demo_alice :: user where
  "demo_alice = \<lparr>u_id = 2, username = ''alice'', email = None, is_active = True,
                 u_created_at = 2, u_updated_at = None\<rparr>"

definition demo_flow :: "int \<Rightarrow> string \<Rightarrow> int \<Rightarrow> flow" where
  "demo_flow i fid uid = \<lparr>f_id = i, flow_id = fid, f_name = ''n'', f_description = None,
                          f_user_id = uid, f_created_at = 3, f_updated_at = None\<rparr>"

definition db_empty :: session where
  "db_empty = \<lparr>users = [], flows = [], fk_enforced = True\<rparr>"

definition db_root_only :: session where
  "db_root_only = \<lparr>users = [demo_root], flows = [], fk_enforced = True\<rparr>"

definition db_collide :: session where
  "db_collide = \<lparr>users = [demo_root, demo_alice],
                  flows = [demo_flow 1 ''flow_00000000'' 2], fk_enforced = True\<rparr>"

definition db_five :: session where
  "db_five = \<lparr>users = [demo_root, demo_alice],
               flows = [demo_flow 1 ''a'' 1, demo_flow 2 ''b'' 2, demo_flow 3 ''c'' 1,
                        demo_flow 4 ''d'' 2, demo_flow 5 ''e'' 2],
               fk_enforced = True\<rparr>"

definition db_zero :: session where
  "db_zero = \<lparr>users = [demo_alice], flows = [demo_flow 1 ''a'' 0, demo_flow 2 ''b'' 2],
               fk_enforced = False\<rparr>"

text \<open>A store of 101 Flows, with ids 1 to 101.\<close>

definition db_many :: session where
  "db_many = \<lparr>users = [demo_alice],
               flows = map (\<lambda>i. demo_flow (int i + 1) (replicate (Suc i) CHR ''a'') 2) [0..<101],
               fk_enforced = True\<rparr>"

text \<open>A second random value, whose hexadecimal form starts with 10000000.\<close>

definition uuid_b :: "128 word" where
  "uuid_b = 2 ^ 124"

section \<open>Auxiliary facts\<close>

lemma find_flow_id_Some:
  "f \<in> set fs \<Longrightarrow> \<exists>g. find (\<lambda>r. flow_id r = flow_id f) fs = Some g"
  by (cases "find (\<lambda>r. flow_id r = flow_id f) fs") (auto simp: find_None_iff)

lemma find_distinct_key:
  "distinct (map k xs) \<Longrightarrow> x \<in> set xs \<Longrightarrow> find (\<lambda>r. k r = k x) xs = Some x"
  by (induction xs) (auto simp: image_iff)

lemma find_SomeD: "find P xs = Some x \<Longrightarrow> P x \<and> x \<in> set xs"
  by (auto simp: find_Some_iff)

lemma length_filter_distinct_key:
  "distinct (map k xs) \<Longrightarrow> x \<in> set xs \<Longrightarrow> length (filter (\<lambda>r. k r \<noteq> k x) xs) + 1 = length xs"
proof (induction xs)
  case Nil
  then show ?case by simp
next
  case (Cons a xs)
  show ?case
  proof (cases "a = x")
    case True
    with Cons.prems have "\<forall>r\<in>set xs. k r \<noteq> k x" by (auto simp: image_iff)
    then have "filter (\<lambda>r. k r \<noteq> k x) xs = xs" by (simp add: filter_id_conv)
    with True show ?thesis by simp
  next
    case False
    with Cons.prems have "x \<in> set xs" and "k a \<noteq> k x" and "distinct (map k xs)"
      by (auto simp: image_iff)
    with Cons.IH show ?thesis by simp
  qed
qed

lemma length_hex_pad: "length (hex_pad n v) = n"
  by (induction n arbitrary: v) simp_all

lemma hex_digit_in: "d < 16 \<Longrightarrow> hex_digit d \<in> set ''0123456789abcdef''"
  unfolding hex_digit_def by (rule nth_mem) simp

lemma set_hex_pad: "set (hex_pad n v) \<subseteq> set ''0123456789abcdef''"
proof (induction n arbitrary: v)
  case 0
  then show ?case by simp
next
  case (Suc n)
  have "hex_digit (v mod 16) \<in> set ''0123456789abcdef''"
    by (rule hex_digit_in) simp
  with Suc [of "v div 16"] show ?case by simp
qed

lemma hex_pad_add: "hex_pad (m + n) v = hex_pad m (v div 16 ^ n) @ hex_pad n v"
proof (induction n arbitrary: v)
  case 0
  then show ?case by simp
next
  case (Suc n)
  have "v div 16 div 16 ^ n = v div 16 ^ Suc n"
    by (simp add: div_mult2_eq)
  with Suc [of "v div 16"] show ?case by simp
qed

lemma take_uuid_hex: "take 8 (uuid_hex u) = hex_pad 8 (unat u div 16 ^ 24)"
proof -
  have "hex_pad (8 + 24) (unat u) = hex_pad 8 (unat u div 16 ^ 24) @ hex_pad 24 (unat u)"
    by (rule hex_pad_add)
  then have "uuid_hex u = hex_pad 8 (unat u div 16 ^ 24) @ hex_pad 24 (unat u)"
    by (simp only: uuid_hex_def numeral_plus_numeral semiring_norm)
  then show ?thesis by (simp only: take_append length_hex_pad take_all_iff order_refl diff_self_eq_0 take_0 append_Nil2)
qed


lemma hex_pad_numeral:
  "hex_pad (numeral k) v = hex_pad (pred_numeral k) (v div 16) @ [hex_digit (v mod 16)]"
proof -
  have "hex_pad (numeral k) v = hex_pad (Suc (pred_numeral k)) v"
    by (simp only: numeral_eq_Suc)
  then show ?thesis by (simp only: hex_pad.simps)
qed

lemma gen_flow_id_zero: "gen_flow_id 0 = ''flow_00000000''"
  unfolding gen_flow_id_def take_uuid_hex by (simp add: hex_pad_numeral hex_digit_def)

lemma gen_flow_id_one: "gen_flow_id (2 ^ 124) = ''flow_10000000''"
  unfolding gen_flow_id_def take_uuid_hex by (simp add: hex_pad_numeral hex_digit_def)

lemma foldl_setattr: "foldl setattr f (dict_exclude_unset u) = assigned f u"
  by (cases "fu_name u"; cases "fu_description u") (simp_all add: dict_exclude_unset_def assigned_def)

lemma gen_flow_id_uuid_b: "gen_flow_id uuid_b = ''flow_10000000''"
  unfolding uuid_b_def by (rule gen_flow_id_one)

lemma find_root_None: "find (\<lambda>x. username x = ''root'') xs = None \<Longrightarrow> ''root'' \<notin> set (map username xs)"
  by (auto simp: find_None_iff)

lemma find_append_single:
  "find P (xs @ [y]) = (case find P xs of Some x \<Rightarrow> Some x | None \<Rightarrow> if P y then Some y else None)"
  by (induction xs) auto

lemma init_database_root_with_flows:
  assumes "find (\<lambda>x. username x = ''root'') (users db) = Some r"
    and "flows_of db (u_id r) \<noteq> []"
  shows "init_database db u now = db"
  using assms by (simp add: init_database_def flows_of_def)

lemma init_database_root_no_flows:
  assumes "find (\<lambda>x. username x = ''root'') (users db) = Some r"
    and "flows_of db (u_id r) = []"
  shows "init_database db u now =
           (if gen_flow_id u \<in> set (map flow_id (flows db)) then db
            else db\<lparr>flows := flows db @ [bootstrap_flow db u now (u_id r)]\<rparr>)"
proof -
  have "r \<in> set (users db)" using assms(1) find_SomeD by fastforce
  then have "u_id r \<in> set (map u_id (users db))" by simp
  then show ?thesis using assms
    by (simp add: init_database_def flows_of_def add_flow_def bootstrap_flow_def Let_def)
qed

lemma init_database_no_root:
  assumes "find (\<lambda>x. username x = ''root'') (users db) = None"
  shows "init_database db u now =
           (let root_user = \<lparr>u_id = next_id (map u_id (users db)), username = ''root'',
                               email = Some ''root@krok-mvp.local'', is_active = True,
                               u_created_at = now, u_updated_at = None\<rparr>;
                db1 = db\<lparr>users := users db @ [root_user]\<rparr>
            in if gen_flow_id u \<in> set (map flow_id (flows db)) then db1
               else db1\<lparr>flows := flows db @ [bootstrap_flow db u now (u_id root_user)]\<rparr>)"
  using find_root_None [OF assms] assms
  by (simp add: init_database_def add_user_def add_flow_def bootstrap_flow_def root_user_data_def Let_def)

lemma lifespan_root:
  assumes "find (\<lambda>x. username x = ''root'') (users db) = Some r"
  shows "lifespan db u now = db"
  using assms by (simp add: lifespan_def)

lemma lifespan_no_root:
  assumes "find (\<lambda>x. username x = ''root'') (users db) = None"
  shows "lifespan db u now =
           (let root_user = \<lparr>u_id = next_id (map u_id (users db)), username = ''root'',
                               email = Some ''root@krok-mvp.local'', is_active = True,
                               u_created_at = now, u_updated_at = None\<rparr>;
                db1 = db\<lparr>users := users db @ [root_user]\<rparr>
            in if gen_flow_id u \<in> set (map flow_id (flows db)) then db1
               else db1\<lparr>flows := flows db @ [bootstrap_flow db u now (u_id root_user)]\<rparr>)"
  using find_root_None [OF assms] assms
  by (simp add: lifespan_def create_user_def create_flow_def add_user_def add_flow_def
      bootstrap_flow_def root_user_data_def Let_def)


lemma root_found_after_append:
  "find (\<lambda>x. username x = ''root'') xs = None \<Longrightarrow> username y = ''root'' \<Longrightarrow>
   find (\<lambda>x. username x = ''root'') (xs @ [y]) = Some y"
  by (simp add: find_append_single)

lemma init_database_settled:
  assumes "root_owns_flow db \<or> gen_flow_id u \<notin> set (map flow_id (flows db))"
  shows "root_owns_flow (init_database db u now)"
proof (cases "find (\<lambda>x. username x = ''root'') (users db)")
  case None
  then have fresh: "gen_flow_id u \<notin> set (map flow_id (flows db))"
    using assms by (simp add: root_owns_flow_def)
  show ?thesis
    using fresh None
    by (simp add: init_database_no_root [OF None] Let_def root_owns_flow_def
        root_found_after_append flows_of_def bootstrap_flow_def)
next
  case (Some r)
  show ?thesis
  proof (cases "flows_of db (u_id r) = []")
    case True
    then have fresh: "gen_flow_id u \<notin> set (map flow_id (flows db))"
      using assms Some by (simp add: root_owns_flow_def)
    show ?thesis using fresh Some True
      by (simp add: init_database_root_no_flows [OF Some True] root_owns_flow_def flows_of_def
          bootstrap_flow_def)
  next
    case False
    then show ?thesis using Some
      by (simp add: init_database_root_with_flows [OF Some False] root_owns_flow_def)
  qed
qed

lemma init_database_fixed:
  assumes "root_owns_flow db"
  shows "init_database db u now = db"
proof -
  from assms obtain r where "find (\<lambda>x. username x = ''root'') (users db) = Some r"
    and "flows_of db (u_id r) \<noteq> []"
    by (auto simp: root_owns_flow_def split: option.splits)
  then show ?thesis by (rule init_database_root_with_flows)
qed

lemma lifespan_has_root:
  "find (\<lambda>x. username x = ''root'') (users (lifespan db u now)) \<noteq> None"
proof (cases "find (\<lambda>x. username x = ''root'') (users db)")
  case None
  then show ?thesis
    by (simp add: lifespan_no_root [OF None] Let_def root_found_after_append)
next
  case (Some r)
  then show ?thesis by (simp add: lifespan_root [OF Some])
qed

lemma lifespan_twice: "lifespan (lifespan db u1 t1) u2 t2 = lifespan db u1 t1"
proof -
  obtain r where "find (\<lambda>x. username x = ''root'') (users (lifespan db u1 t1)) = Some r"
    using lifespan_has_root [of db u1 t1] by auto
  then show ?thesis by (rule lifespan_root)
qed

lemma root_count_find:
  "root_count db = 0 \<longleftrightarrow> find (\<lambda>x. username x = ''root'') (users db) = None"
  by (auto simp: root_count_def find_None_iff filter_empty_conv)

lemma root_count_init_database: "root_count (init_database db u now) = max 1 (root_count db)"
proof (cases "find (\<lambda>x. username x = ''root'') (users db)")
  case None
  then have z: "root_count db = 0" by (simp add: root_count_find)
  then show ?thesis
    using z by (simp add: init_database_no_root [OF None] Let_def root_count_def)
next
  case (Some r)
  then have nz: "root_count db \<noteq> 0" by (simp add: root_count_find)
  have "users (init_database db u now) = users db"
    by (cases "flows_of db (u_id r) = []")
       (simp_all add: init_database_root_no_flows [OF Some] init_database_root_with_flows [OF Some])
  then have "root_count (init_database db u now) = root_count db"
    by (simp add: root_count_def)
  then show ?thesis using nz by simp
qed

lemma root_count_lifespan: "root_count (lifespan db u now) = max 1 (root_count db)"
proof (cases "find (\<lambda>x. username x = ''root'') (users db)")
  case None
  then have z: "root_count db = 0" by (simp add: root_count_find)
  then show ?thesis
    using z by (simp add: lifespan_no_root [OF None] Let_def root_count_def)
next
  case (Some r)
  then have nz: "root_count db \<noteq> 0" by (simp add: root_count_find)
  then show ?thesis by (simp add: lifespan_root [OF Some])
qed

lemma root_count_run_many:
  assumes step: "\<And>d u t. root_count (boot d u t) = max 1 (root_count d)"
  shows "root_count db \<le> 1 \<Longrightarrow> root_count (run_many boot db runs) \<le> 1"
proof (induction runs arbitrary: db)
  case Nil
  then show ?case by (simp add: run_many_def)
next
  case (Cons a runs)
  obtain u t where a: "a = (u, t)" by (cases a)
  have "root_count (boot db u t) \<le> 1" using Cons.prems by (simp add: step)
  from Cons.IH [OF this] show ?case by (simp add: run_many_def a)
qed

lemma find_map_replace:
  "find P xs = Some f \<Longrightarrow> distinct (map k xs) \<Longrightarrow> P f' \<Longrightarrow>
   find P (map (\<lambda>r. if k r = k f then f' else r) xs) = Some f'"
proof (induction xs)
  case Nil
  then show ?case by simp
next
  case (Cons a xs)
  show ?case
  proof (cases "P a")
    case True
    with Cons.prems(1) have "a = f" by simp
    with Cons.prems(3) show ?thesis by simp
  next
    case False
    with Cons.prems(1) have fx: "find P xs = Some f" by simp
    then have "f \<in> set xs" using find_SomeD by fastforce
    with Cons.prems(2) have "k a \<noteq> k f" by (auto simp: image_iff)
    moreover from Cons.prems(2) have "distinct (map k xs)" by simp
    ultimately show ?thesis using False Cons.IH [OF fx _ Cons.prems(3)] by simp
  qed
qed

lemma update_flow_result:
  assumes "get_flow db fid = Some f"
  shows "update_flow db now fid u =
           (if assigned f u = f then (Some f, db)
            else (Some ((assigned f u)\<lparr>f_updated_at := Some now\<rparr>),
                  db\<lparr>flows := map (\<lambda>r. if f_id r = f_id f
                                        then (assigned f u)\<lparr>f_updated_at := Some now\<rparr> else r)
                                  (flows db)\<rparr>))"
  using assms by (simp add: update_flow_def foldl_setattr commit_flow_def Let_def)

lemma assigned_same_iff:
  "assigned f u = f \<longleftrightarrow>
     f_name (assigned f u) = f_name f \<and> f_description (assigned f u) = f_description f"
  by (cases f) (auto simp: assigned_def)

lemma flow_timestamps_on_update:
  assumes g: "get_flow db fid = Some f"
  shows "\<exists>f'. update_flow db now fid fu =
             (Some f', if f' = f then db
                       else db\<lparr>flows := map (\<lambda>r. if f_id r = f_id f then f' else r) (flows db)\<rparr>) \<and>
           f_id f' = f_id f \<and> flow_id f' = flow_id f \<and>
           f_created_at f' = f_created_at f \<and>
           f_updated_at f' = (if f_name f' \<noteq> f_name f \<or> f_description f' \<noteq> f_description f
                              then Some now else f_updated_at f) \<and>
           (wf_store db \<longrightarrow> get_flow (snd (update_flow db now fid fu)) fid = Some f')"
proof (cases "assigned f fu = f")
  case True
  then have "update_flow db now fid fu = (Some f, db)"
    by (simp add: update_flow_result [OF g])
  then show ?thesis using g by (intro exI [of _ f]) simp
next
  case False
  let ?r = "(assigned f fu)\<lparr>f_updated_at := Some now\<rparr>"
  let ?db = "db\<lparr>flows := map (\<lambda>r. if f_id r = f_id f then ?r else r) (flows db)\<rparr>"
  have u: "update_flow db now fid fu = (Some ?r, ?db)"
    using False by (simp add: update_flow_result [OF g])
  have ch: "f_name ?r \<noteq> f_name f \<or> f_description ?r \<noteq> f_description f"
    using False assigned_same_iff [of f fu] by simp
  have ne: "?r \<noteq> f"
  proof
    assume e: "?r = f"
    have "f_name (assigned f fu) = f_name ?r" "f_description (assigned f fu) = f_description ?r"
      by simp_all
    then have "f_name (assigned f fu) = f_name f" "f_description (assigned f fu) = f_description f"
      by (simp_all only: e)
    with False assigned_same_iff [of f fu] show False by simp
  qed
  have ids: "f_id ?r = f_id f" "flow_id ?r = flow_id f" "f_created_at ?r = f_created_at f"
    by (simp_all add: assigned_def)
  have fid: "flow_id f = fid"
    using g find_SomeD [of "\<lambda>r. flow_id r = fid" "flows db" f] by (simp add: get_flow_def)
  have per: "wf_store db \<longrightarrow> get_flow ?db fid = Some ?r"
  proof
    assume "wf_store db"
    then have d: "distinct (map f_id (flows db))" by (simp add: wf_store_def)
    have p: "flow_id ?r = fid" using ids fid by simp
    from g have "find (\<lambda>r. flow_id r = fid) (flows db) = Some f" by (simp add: get_flow_def)
    from find_map_replace [OF this d, of ?r] p
    show "get_flow ?db fid = Some ?r" by (simp add: get_flow_def)
  qed
  have upd: "f_updated_at ?r = Some now" by simp
  show ?thesis
  proof (intro exI [of _ ?r] conjI)
    show "update_flow db now fid fu =
            (Some ?r, if ?r = f then db
                      else db\<lparr>flows := map (\<lambda>r. if f_id r = f_id f then ?r else r) (flows db)\<rparr>)"
      using u ne by simp
    show "f_id ?r = f_id f" "flow_id ?r = flow_id f" "f_created_at ?r = f_created_at f"
      by (rule ids)+
    show "f_updated_at ?r = (if f_name ?r \<noteq> f_name f \<or> f_description ?r \<noteq> f_description f
                              then Some now else f_updated_at f)"
      using ch upd by simp
    show "wf_store db \<longrightarrow> get_flow (snd (update_flow db now fid fu)) fid = Some ?r"
      using per by (simp add: u)
  qed
qed

lemma foldl_user_setattr:
  "foldl user_setattr (attrs_of x) (user_dict_exclude_unset u) = user_assigned x u"
  by (cases "uu_username u"; cases "uu_email u"; cases "uu_is_active u")
     (simp_all add: user_dict_exclude_unset_def user_assigned_def attrs_of_def)

lemma update_user_commit:
  assumes "get_user db uid = Some x"
  shows "update_user db now uid u =
           (case commit_user db now x (user_assigned x u) of
              Inl e \<Rightarrow> Inl e | Inr (row, db') \<Rightarrow> Inr (Some row, db'))"
  using assms by (simp add: update_user_def foldl_user_setattr Let_def)

lemma refused_username_null:
  "uu_username u = Some None \<Longrightarrow> commit_user db now x (user_assigned x u) = Inl IntegrityError"
  by (simp add: commit_user_def user_assigned_def attrs_of_def)

lemma refused_is_active_null:
  "uu_is_active u = Some None \<Longrightarrow> commit_user db now x (user_assigned x u) = Inl IntegrityError"
  by (cases "uu_username u")
     (auto simp: commit_user_def user_assigned_def attrs_of_def split: option.splits)

lemma refused_username_taken:
  "uu_username u = Some (Some n) \<Longrightarrow> n \<noteq> username x \<Longrightarrow> n \<in> set (map username (users db)) \<Longrightarrow>
   commit_user db now x (user_assigned x u) = Inl IntegrityError"
  by (auto simp: commit_user_def user_assigned_def attrs_of_def split: option.splits)

lemma user_update_refused_error:
  assumes "user_update_refused db x u"
  shows "commit_user db now x (user_assigned x u) = Inl IntegrityError"
proof -
  from assms consider "uu_username u = Some None" | "uu_is_active u = Some None"
    | n where "uu_username u = Some (Some n)" "n \<noteq> username x" "n \<in> set (map username (users db))"
    by (auto simp: user_update_refused_def split: option.splits)
  then show ?thesis
    by cases (simp_all add: refused_username_null refused_is_active_null refused_username_taken)
qed

lemma user_update_accepted:
  assumes "\<not> user_update_refused db x u"
  shows "\<exists>n a. a_username (user_assigned x u) = Some n \<and> a_is_active (user_assigned x u) = Some a \<and>
               \<not> (n \<noteq> username x \<and> n \<in> set (map username (users db)))"
  using assms
  by (cases "uu_username u"; cases "uu_is_active u")
     (auto simp: user_update_refused_def user_assigned_def split: option.splits)

lemma user_timestamps_on_update:
  assumes g: "get_user db uid = Some x"
  shows "(user_update_refused db x uu \<longrightarrow> update_user db now uid uu = Inl IntegrityError) \<and>
         (\<not> user_update_refused db x uu \<longrightarrow>
           (\<exists>x'. update_user db now uid uu =
                    Inr (Some x', if x' = x then db
                                  else db\<lparr>users := map (\<lambda>r. if u_id r = u_id x then x' else r)
                                                     (users db)\<rparr>) \<and>
              u_id x' = u_id x \<and> u_created_at x' = u_created_at x \<and>
              u_updated_at x' = (if username x' \<noteq> username x \<or> email x' \<noteq> email x \<or>
                                    is_active x' \<noteq> is_active x
                                 then Some now else u_updated_at x) \<and>
              (wf_store db \<longrightarrow>
                 get_user (if x' = x then db
                           else db\<lparr>users := map (\<lambda>r. if u_id r = u_id x then x' else r)
                                              (users db)\<rparr>) uid = Some x')))"
proof (intro conjI impI)
  assume "user_update_refused db x uu"
  then show "update_user db now uid uu = Inl IntegrityError"
    by (simp add: update_user_commit [OF g] user_update_refused_error)
next
  assume acc: "\<not> user_update_refused db x uu"
  let ?o = "user_assigned x uu"
  from user_update_accepted [OF acc] obtain n a where
    n: "a_username ?o = Some n" and a: "a_is_active ?o = Some a"
    and ok: "\<not> (n \<noteq> username x \<and> n \<in> set (map username (users db)))"
    by blast
  have uid: "u_id x = uid"
    using g find_SomeD [of "\<lambda>r. u_id r = uid" "users db" x] by (simp add: get_user_def)
  show "\<exists>x'. update_user db now uid uu =
                    Inr (Some x', if x' = x then db
                                  else db\<lparr>users := map (\<lambda>r. if u_id r = u_id x then x' else r)
                                                     (users db)\<rparr>) \<and>
              u_id x' = u_id x \<and> u_created_at x' = u_created_at x \<and>
              u_updated_at x' = (if username x' \<noteq> username x \<or> email x' \<noteq> email x \<or>
                                    is_active x' \<noteq> is_active x
                                 then Some now else u_updated_at x) \<and>
              (wf_store db \<longrightarrow>
                 get_user (if x' = x then db
                           else db\<lparr>users := map (\<lambda>r. if u_id r = u_id x then x' else r)
                                              (users db)\<rparr>) uid = Some x')"
  proof (cases "?o = attrs_of x")
    case True
    then have "update_user db now uid uu = Inr (Some x, db)"
      by (simp add: update_user_commit [OF g] commit_user_def)
    then show ?thesis using g by (intro exI [of _ x]) simp
  next
    case False
    let ?r = "x\<lparr>username := n, email := a_email ?o, is_active := a, u_updated_at := Some now\<rparr>"
    let ?db = "db\<lparr>users := map (\<lambda>r. if u_id r = u_id x then ?r else r) (users db)\<rparr>"
    have u: "update_user db now uid uu = Inr (Some ?r, ?db)"
      using False n a ok by (simp add: update_user_commit [OF g] commit_user_def Let_def)
    have "?o = \<lparr>a_username = Some n, a_email = a_email ?o, a_is_active = Some a\<rparr>"
      using n a by (cases ?o) simp
    with False have ch: "n \<noteq> username x \<or> a_email ?o \<noteq> email x \<or> a \<noteq> is_active x"
      by (auto simp: attrs_of_def)
    have ne: "?r \<noteq> x"
    proof
      assume e: "?r = x"
      have "username ?r = n" "email ?r = a_email ?o" "is_active ?r = a" by simp_all
      then have "username x = n" "email x = a_email ?o" "is_active x = a"
        by (simp_all only: e)
      with ch show False by auto
    qed
    have per: "wf_store db \<longrightarrow> get_user ?db uid = Some ?r"
    proof
      assume "wf_store db"
      then have d: "distinct (map u_id (users db))" by (simp add: wf_store_def)
      have p: "u_id ?r = uid" using uid by simp
      from g have "find (\<lambda>r. u_id r = uid) (users db) = Some x" by (simp add: get_user_def)
      from find_map_replace [OF this d, of ?r] p
      show "get_user ?db uid = Some ?r" by (simp add: get_user_def)
    qed
    show ?thesis
    proof (intro exI [of _ ?r] conjI)
      show "update_user db now uid uu =
              Inr (Some ?r, if ?r = x then db
                            else db\<lparr>users := map (\<lambda>r. if u_id r = u_id x then ?r else r) (users db)\<rparr>)"
        using u ne by simp
      show "u_id ?r = u_id x" "u_created_at ?r = u_created_at x" by simp_all
      show "u_updated_at ?r = (if username ?r \<noteq> username x \<or> email ?r \<noteq> email x \<or>
                                    is_active ?r \<noteq> is_active x
                                 then Some now else u_updated_at x)"
        using ch by simp
      show "wf_store db \<longrightarrow>
              get_user (if ?r = x then db
                        else db\<lparr>users := map (\<lambda>r. if u_id r = u_id x then ?r else r) (users db)\<rparr>)
                uid = Some ?r"
        using per ne by simp
    qed
  qed
qed

lemma flow_timestamps_on_create:
  assumes "create_flow db now fl = Inr (f, db')"
  shows "f_created_at f = now \<and> f_updated_at f = None \<and> db' = db\<lparr>flows := flows db @ [f]\<rparr>"
  using assms by (auto simp: create_flow_def add_flow_def Let_def split: if_splits)

lemma user_timestamps_on_create:
  assumes "add_user db now un em act = Inr (x, db')"
  shows "u_created_at x = now \<and> u_updated_at x = None \<and> db' = db\<lparr>users := users db @ [x]\<rparr>"
  using assms by (auto simp: add_user_def Let_def split: if_splits)

section \<open>Listing flows\<close>

text \<open>
  C10. The list-flows endpoint treats \<open>user_id = 0\<close> as an omitted \<open>user_id\<close>: the dispatch
  tests the argument for truthiness, so for \<open>user_id = 0\<close> it returns what
  \<open>get_all_flows\<close> returns, all Flows of the store (paginated), and not the Flows owned by
  the user with id 0. On the store \<open>db_zero\<close> the two answers differ.
\<close>

theorem get_flows_user_id_zero:
  "api_get_flows db (Some 0) skip limit = get_all_flows db skip limit \<and>
   api_get_flows db (Some 0) skip limit = api_get_flows db None skip limit \<and>
   api_get_flows db_zero (Some 0) 0 100 = [demo_flow 1 ''a'' 0, demo_flow 2 ''b'' 2] \<and>
   get_flows_by_user db_zero 0 0 100 = [demo_flow 1 ''a'' 0]"
  by (simp add: api_get_flows_def get_all_flows_def get_flows_by_user_def paginate_def
      db_zero_def demo_flow_def)

text \<open>
  C6. \<open>get_all_flows\<close> paginates by offset and limit, with defaults \<open>skip = 0\<close> and
  \<open>limit = 100\<close>: for every store, a call with an argument left out is the call with 0 for
  \<open>skip\<close> and 100 for \<open>limit\<close>, so the call with neither returns the first 100 Flows and
  no more; with non-negative arguments the answer is the \<open>limit\<close> rows after the first
  \<open>skip\<close>. On a store of 5 Flows, \<open>skip = 0, limit = 2\<close> returns exactly the first two
  Flows, \<open>skip = 2, limit = 2\<close> returns the next two, and the two pages are disjoint.
\<close>

theorem list_all_flows_pages:
  "get_all_flows_kw db None None = get_all_flows db 0 100 \<and>
   get_all_flows_kw db (Some skip) None = get_all_flows db skip 100 \<and>
   get_all_flows_kw db None (Some limit) = get_all_flows db 0 limit \<and>
   get_all_flows_kw db (Some skip) (Some limit) = get_all_flows db skip limit \<and>
   get_all_flows_kw db None None = take 100 (flows db) \<and>
   length (get_all_flows_kw db None None) = min 100 (length (flows db)) \<and>
   (0 \<le> skip \<and> 0 \<le> limit \<longrightarrow>
      get_all_flows db skip limit = take (nat limit) (drop (nat skip) (flows db))) \<and>
   (length (flows db) = 5 \<and> distinct (flows db) \<longrightarrow>
      get_all_flows db 0 2 = [flows db ! 0, flows db ! 1] \<and>
      get_all_flows db 2 2 = [flows db ! 2, flows db ! 3] \<and>
      set (get_all_flows db 0 2) \<inter> set (get_all_flows db 2 2) = {} \<and>
      get_all_flows_kw db None None = flows db)"
proof -
  have kw: "get_all_flows_kw db None None = get_all_flows db 0 100"
    "get_all_flows_kw db (Some skip) None = get_all_flows db skip 100"
    "get_all_flows_kw db None (Some limit) = get_all_flows db 0 limit"
    "get_all_flows_kw db (Some skip) (Some limit) = get_all_flows db skip limit"
    by (simp_all add: get_all_flows_kw_def)
  have t: "get_all_flows_kw db None None = take 100 (flows db)"
    by (simp add: get_all_flows_kw_def get_all_flows_def paginate_def)
  then have l: "length (get_all_flows_kw db None None) = min 100 (length (flows db))"
    by simp
  have g: "0 \<le> skip \<and> 0 \<le> limit \<longrightarrow>
      get_all_flows db skip limit = take (nat limit) (drop (nat skip) (flows db))"
    by (simp add: get_all_flows_def paginate_def)
  have p: "length (flows db) = 5 \<and> distinct (flows db) \<longrightarrow>
      get_all_flows db 0 2 = [flows db ! 0, flows db ! 1] \<and>
      get_all_flows db 2 2 = [flows db ! 2, flows db ! 3] \<and>
      set (get_all_flows db 0 2) \<inter> set (get_all_flows db 2 2) = {} \<and>
      get_all_flows_kw db None None = flows db"
  proof
    assume a: "length (flows db) = 5 \<and> distinct (flows db)"
    then obtain a b c d e where fs: "flows db = [a, b, c, d, e]"
      by (auto simp: length_Suc_conv eval_nat_numeral)
    have p1: "get_all_flows db 0 2 = [a, b]"
      by (simp add: get_all_flows_def paginate_def fs)
    have p2: "get_all_flows db 2 2 = [c, d]"
      by (simp add: get_all_flows_def paginate_def fs eval_nat_numeral)
    have p3: "get_all_flows_kw db None None = [a, b, c, d, e]"
      by (simp add: t fs)
    from a have "{a, b} \<inter> {c, d} = {}" by (auto simp: fs)
    with p1 p2 p3 show "get_all_flows db 0 2 = [flows db ! 0, flows db ! 1] \<and>
      get_all_flows db 2 2 = [flows db ! 2, flows db ! 3] \<and>
      set (get_all_flows db 0 2) \<inter> set (get_all_flows db 2 2) = {} \<and>
      get_all_flows_kw db None None = flows db"
      by (simp add: fs)
  qed
  from kw t l g p show ?thesis by blast
qed

theorem list_all_flows_pages_witness:
  "length (flows db_five) = 5 \<and> distinct (flows db_five) \<and>
   get_all_flows db_five 0 2 = [demo_flow 1 ''a'' 1, demo_flow 2 ''b'' 2] \<and>
   get_all_flows db_five 2 2 = [demo_flow 3 ''c'' 1, demo_flow 4 ''d'' 2] \<and>
   (0::int) \<le> 1 \<and> (0::int) \<le> 3 \<and>
   get_all_flows db_five 1 3 = [demo_flow 2 ''b'' 2, demo_flow 3 ''c'' 1, demo_flow 4 ''d'' 2] \<and>
   length (flows db_many) = 101 \<and>
   length (get_all_flows_kw db_many None None) = 100 \<and>
   get_all_flows_kw db_many None None \<noteq> flows db_many"
proof -
  have l: "length (flows db_five) = 5" by (simp add: db_five_def)
  have d: "distinct (flows db_five)" by (simp add: db_five_def demo_flow_def)
  have fs: "flows db_five = [demo_flow 1 ''a'' 1, demo_flow 2 ''b'' 2, demo_flow 3 ''c'' 1,
                             demo_flow 4 ''d'' 2, demo_flow 5 ''e'' 2]"
    by (simp add: db_five_def)
  have m: "length (flows db_many) = 101" by (simp add: db_many_def)
  note t5 = list_all_flows_pages [of db_five 1 3]
  note tm = list_all_flows_pages [of db_many 0 0]
  from t5 l d have p1: "get_all_flows db_five 0 2 = [demo_flow 1 ''a'' 1, demo_flow 2 ''b'' 2]"
    and p2: "get_all_flows db_five 2 2 = [demo_flow 3 ''c'' 1, demo_flow 4 ''d'' 2]"
    by (simp_all add: fs)
  from t5 have p3: "get_all_flows db_five 1 3 =
      [demo_flow 2 ''b'' 2, demo_flow 3 ''c'' 1, demo_flow 4 ''d'' 2]"
    by (simp add: fs eval_nat_numeral)
  from tm have "length (get_all_flows_kw db_many None None) = min 100 (length (flows db_many))"
    by blast
  with m have q: "length (get_all_flows_kw db_many None None) = 100" by simp
  with m have r: "get_all_flows_kw db_many None None \<noteq> flows db_many" by auto
  from l d p1 p2 p3 m q r show ?thesis by simp
qed

section \<open>Creating and deleting flows\<close>

text \<open>
  C4. For every Flow stored under a \<open>flow_id\<close>, a creation request with that \<open>flow_id\<close> is
  rejected by the endpoint's look-before-write check: the answer is the HTTP error of the
  pre-check (status 400, "a flow with this ID already exists"), not the store's
  \<open>IntegrityError\<close> that the insert would have raised, and the store, with the existing
  Flow in it, is left as it was.
\<close>

theorem create_flow_duplicate_rejected:
  assumes "f \<in> set (flows db)" and "fc_flow_id fl = flow_id f"
  shows "api_create_flow db now fl = (Inl (HTTPException 400 detail_flow_exists), db) \<and>
         create_flow db now fl = Inl IntegrityError"
proof -
  obtain g where "get_flow db (fc_flow_id fl) = Some g"
    using find_flow_id_Some [OF assms(1)] assms(2) by (auto simp: get_flow_def)
  then have a: "api_create_flow db now fl = (Inl (HTTPException 400 detail_flow_exists), db)"
    by (simp add: api_create_flow_def)
  have "fc_flow_id fl \<in> set (map flow_id (flows db))"
    using assms by auto
  then have b: "create_flow db now fl = Inl IntegrityError"
    by (simp add: create_flow_def add_flow_def)
  from a b show ?thesis by simp
qed

theorem create_flow_duplicate_rejected_witness:
  "demo_flow 3 ''c'' 1 \<in> set (flows db_five) \<and>
   api_create_flow db_five 7
      \<lparr>fc_flow_id = ''c'', fc_name = ''other'', fc_description = None, fc_user_id = 2\<rparr>
     = (Inl (HTTPException 400 detail_flow_exists), db_five)"
proof -
  have m: "demo_flow 3 ''c'' 1 \<in> set (flows db_five)" by (simp add: db_five_def)
  have e: "fc_flow_id \<lparr>fc_flow_id = ''c'', fc_name = ''other'', fc_description = None,
                        fc_user_id = 2\<rparr> = flow_id (demo_flow 3 ''c'' 1)"
    by (simp add: demo_flow_def)
  show ?thesis using create_flow_duplicate_rejected [OF m e, of 7] m by simp
qed

text \<open>
  C5. \<open>delete_flow\<close> reports whether a deletion occurred. For a \<open>flow_id\<close> not in the
  store it returns \<open>False\<close> and the store is unchanged. For a \<open>flow_id\<close> in the store it
  returns \<open>True\<close> and deletes the row that \<open>get_flow\<close> finds: that row is gone, every row
  with another id is kept, and in a store with unique keys the \<open>flow_id\<close> is no longer
  found and the table is one row shorter. No case raises.
\<close>

theorem delete_flow_reports:
  "(fid \<notin> set (map flow_id (flows db)) \<longrightarrow> delete_flow db fid = (False, db)) \<and>
   (fid \<in> set (map flow_id (flows db)) \<longrightarrow>
      (\<exists>f. get_flow db fid = Some f \<and> f \<in> set (flows db) \<and> flow_id f = fid \<and>
           delete_flow db fid = (True, db\<lparr>flows := filter (\<lambda>r. f_id r \<noteq> f_id f) (flows db)\<rparr>) \<and>
           f \<notin> set (flows (snd (delete_flow db fid))) \<and>
           (\<forall>r \<in> set (flows db). f_id r \<noteq> f_id f \<longrightarrow> r \<in> set (flows (snd (delete_flow db fid)))) \<and>
           (wf_store db \<longrightarrow> get_flow (snd (delete_flow db fid)) fid = None \<and>
                            length (flows (snd (delete_flow db fid))) + 1 = length (flows db))))"
proof (intro conjI impI)
  assume "fid \<notin> set (map flow_id (flows db))"
  then have "get_flow db fid = None" by (auto simp: get_flow_def find_None_iff)
  then show "delete_flow db fid = (False, db)" by (simp add: delete_flow_def)
next
  assume "fid \<in> set (map flow_id (flows db))"
  then obtain f where g: "get_flow db fid = Some f"
    by (cases "get_flow db fid") (auto simp: get_flow_def find_None_iff)
  then have f: "f \<in> set (flows db)" "flow_id f = fid"
    using find_SomeD [of "\<lambda>r. flow_id r = fid" "flows db" f] by (simp_all add: get_flow_def)
  let ?db' = "db\<lparr>flows := filter (\<lambda>r. f_id r \<noteq> f_id f) (flows db)\<rparr>"
  have d: "delete_flow db fid = (True, ?db')" using g by (simp add: delete_flow_def)
  have w: "wf_store db \<longrightarrow> get_flow ?db' fid = None \<and> length (flows ?db') + 1 = length (flows db)"
  proof
    assume wf: "wf_store db"
    have "\<forall>r\<in>set (flows db). flow_id r = fid \<longrightarrow> r = f"
      using wf f by (auto simp: wf_store_def distinct_map inj_on_def)
    then have "get_flow ?db' fid = None"
      by (auto simp: get_flow_def find_None_iff)
    moreover have "length (flows ?db') + 1 = length (flows db)"
      using length_filter_distinct_key [of f_id "flows db" f] wf f(1) by (simp add: wf_store_def)
    ultimately show "get_flow ?db' fid = None \<and> length (flows ?db') + 1 = length (flows db)" by simp
  qed
  show "\<exists>f. get_flow db fid = Some f \<and> f \<in> set (flows db) \<and> flow_id f = fid \<and>
           delete_flow db fid = (True, db\<lparr>flows := filter (\<lambda>r. f_id r \<noteq> f_id f) (flows db)\<rparr>) \<and>
           f \<notin> set (flows (snd (delete_flow db fid))) \<and>
           (\<forall>r \<in> set (flows db). f_id r \<noteq> f_id f \<longrightarrow> r \<in> set (flows (snd (delete_flow db fid)))) \<and>
           (wf_store db \<longrightarrow> get_flow (snd (delete_flow db fid)) fid = None \<and>
                            length (flows (snd (delete_flow db fid))) + 1 = length (flows db))"
    using g f d w by (intro exI [of _ f]) simp
qed

theorem delete_flow_reports_witness:
  "''zz'' \<notin> set (map flow_id (flows db_five)) \<and> delete_flow db_five ''zz'' = (False, db_five) \<and>
   ''c'' \<in> set (map flow_id (flows db_five)) \<and> wf_store db_five \<and>
   demo_flow 1 ''a'' 1 \<in> set (flows db_five) \<and>
   fst (delete_flow db_five ''c'') = True \<and>
   flows (snd (delete_flow db_five ''c'')) =
     [demo_flow 1 ''a'' 1, demo_flow 2 ''b'' 2, demo_flow 4 ''d'' 2, demo_flow 5 ''e'' 2] \<and>
   get_flow (snd (delete_flow db_five ''c'')) ''c'' = None"
proof -
  have g: "get_flow db_five ''c'' = Some (demo_flow 3 ''c'' 1)"
    by (simp add: get_flow_def db_five_def demo_flow_def)
  have w: "wf_store db_five"
    by (simp add: wf_store_def db_five_def demo_flow_def demo_root_def demo_alice_def)
  have m: "''c'' \<in> set (map flow_id (flows db_five))" "''zz'' \<notin> set (map flow_id (flows db_five))"
    by (simp_all add: db_five_def demo_flow_def)
  have a: "demo_flow 1 ''a'' 1 \<in> set (flows db_five)" by (simp add: db_five_def)
  from delete_flow_reports [of "''zz''" db_five] m
  have z: "delete_flow db_five ''zz'' = (False, db_five)" by simp
  from delete_flow_reports [of "''c''" db_five] m g w
  have c: "delete_flow db_five ''c'' =
             (True, db_five\<lparr>flows := filter (\<lambda>r. f_id r \<noteq> f_id (demo_flow 3 ''c'' 1)) (flows db_five)\<rparr>)"
    and n: "get_flow (snd (delete_flow db_five ''c'')) ''c'' = None"
    by auto
  have "flows (snd (delete_flow db_five ''c'')) =
     [demo_flow 1 ''a'' 1, demo_flow 2 ''b'' 2, demo_flow 4 ''d'' 2, demo_flow 5 ''e'' 2]"
    unfolding c by (simp add: db_five_def demo_flow_def)
  with z c n m w a show ?thesis by simp
qed

text \<open>
  C7. For every \<open>user_id\<close>, \<open>create_default_flow_for_user\<close> builds the \<open>flow_id\<close> as
  \<open>flow_\<close> followed by the first 8 hexadecimal digits of a random UUID, fills in the fixed
  name and description, and returns whatever \<open>create_flow\<close> returns on that payload. The
  8 characters are lower-case hexadecimal digits. The generated id is not checked: when it
  is already in the store the insert's \<open>IntegrityError\<close> comes out.
\<close>

theorem create_default_flow_delegates:
  "create_default_flow_for_user db now u user_id =
     create_flow db now \<lparr>fc_flow_id = ''flow_'' @ take 8 (uuid_hex u),
                          fc_name = default_flow_name,
                          fc_description = Some default_flow_description,
                          fc_user_id = user_id\<rparr> \<and>
   length (take 8 (uuid_hex u)) = 8 \<and>
   set (take 8 (uuid_hex u)) \<subseteq> set ''0123456789abcdef'' \<and>
   (''flow_'' @ take 8 (uuid_hex u) \<in> set (map flow_id (flows db)) \<longrightarrow>
      create_default_flow_for_user db now u user_id = Inl IntegrityError)"
proof -
  have a: "length (take 8 (uuid_hex u)) = 8"
    by (simp add: take_uuid_hex length_hex_pad)
  have b: "set (take 8 (uuid_hex u)) \<subseteq> set ''0123456789abcdef''"
    unfolding take_uuid_hex by (rule set_hex_pad)
  have c: "create_default_flow_for_user db now u user_id =
     create_flow db now \<lparr>fc_flow_id = ''flow_'' @ take 8 (uuid_hex u),
                          fc_name = default_flow_name,
                          fc_description = Some default_flow_description,
                          fc_user_id = user_id\<rparr>"
    by (simp add: create_default_flow_for_user_def gen_flow_id_def)
  have d: "''flow_'' @ take 8 (uuid_hex u) \<in> set (map flow_id (flows db)) \<longrightarrow>
      create_default_flow_for_user db now u user_id = Inl IntegrityError"
    unfolding c by (simp add: create_flow_def add_flow_def)
  from a b c d show ?thesis by blast
qed

theorem create_default_flow_delegates_witness:
  "''flow_'' @ take 8 (uuid_hex 0) \<in> set (map flow_id (flows db_collide)) \<and>
   create_default_flow_for_user db_collide 5 0 2 = Inl IntegrityError"
proof -
  have m: "''flow_'' @ take 8 (uuid_hex 0) \<in> set (map flow_id (flows db_collide))"
    using gen_flow_id_zero by (simp add: gen_flow_id_def db_collide_def demo_flow_def)
  with create_default_flow_delegates [of db_collide 5 0 2] show ?thesis by blast
qed

section \<open>Updating flows\<close>

text \<open>
  C9. For a \<open>flow_id\<close> in the store, \<open>update_flow\<close> with a payload in which no field is set
  is a no-op: it returns the stored Flow as it is, \<open>updated_at\<close> included, and the store is
  unchanged.
\<close>

theorem update_flow_empty_payload:
  assumes "get_flow db fid = Some f"
  shows "update_flow db now fid \<lparr>fu_name = None, fu_description = None\<rparr> = (Some f, db)"
  using assms by (simp add: update_flow_def dict_exclude_unset_def commit_flow_def)

theorem update_flow_empty_payload_witness:
  "get_flow db_five ''c'' = Some (demo_flow 3 ''c'' 1) \<and>
   update_flow db_five 9 ''c'' \<lparr>fu_name = None, fu_description = None\<rparr>
     = (Some (demo_flow 3 ''c'' 1), db_five) \<and>
   f_updated_at (demo_flow 3 ''c'' 1) = None"
proof -
  have g: "get_flow db_five ''c'' = Some (demo_flow 3 ''c'' 1)"
    by (simp add: get_flow_def db_five_def demo_flow_def)
  from update_flow_empty_payload [OF g, of 9] g show ?thesis by (simp add: demo_flow_def)
qed

text \<open>
  C3, as stated: for every stored \<open>flow_id\<close> and every payload, \<open>update_flow\<close> sets
  \<open>updated_at\<close>. It fails for the payload with no field set: the Flow ''a'' of \<open>db_five\<close>
  comes back with \<open>updated_at\<close> still null at time 9.
\<close>

theorem update_flow_sets_updated_at_counterexample:
  "get_flow db_five ''a'' = Some (demo_flow 1 ''a'' 1) \<and>
   fst (update_flow db_five 9 ''a'' \<lparr>fu_name = None, fu_description = None\<rparr>)
     = Some (demo_flow 1 ''a'' 1) \<and>
   f_updated_at (demo_flow 1 ''a'' 1) = None \<and>
   f_updated_at (demo_flow 1 ''a'' 1) \<noteq> Some 9"
  by (simp add: get_flow_def update_flow_def dict_exclude_unset_def commit_flow_def
      db_five_def demo_flow_def Let_def)

text \<open>
  C3, amended. For a \<open>flow_id\<close> not in the store \<open>update_flow\<close> returns nothing and the
  store is unchanged. For a stored \<open>flow_id\<close> it returns the updated Flow: each field set in
  the payload has the payload's value, each unset field and the id, \<open>flow_id\<close>, owner and
  \<open>created_at\<close> are as they were, and \<open>updated_at\<close> is the time of the update when the name
  or the description changed and is left as it was when nothing changed. In the store only
  the row with the Flow's id is replaced.
\<close>

theorem update_flow_partial:
  "(get_flow db fid = None \<longrightarrow> update_flow db now fid u = (None, db)) \<and>
   (\<forall>f. get_flow db fid = Some f \<longrightarrow>
      (\<exists>f'. update_flow db now fid u = (Some f',
                if f' = f then db
                else db\<lparr>flows := map (\<lambda>r. if f_id r = f_id f then f' else r) (flows db)\<rparr>) \<and>
            f_name f' = (case fu_name u of None \<Rightarrow> f_name f | Some n \<Rightarrow> n) \<and>
            f_description f' = (case fu_description u of None \<Rightarrow> f_description f | Some d \<Rightarrow> d) \<and>
            f_id f' = f_id f \<and> flow_id f' = flow_id f \<and> f_user_id f' = f_user_id f \<and>
            f_created_at f' = f_created_at f \<and>
            f_updated_at f' = (if f_name f' \<noteq> f_name f \<or> f_description f' \<noteq> f_description f
                               then Some now else f_updated_at f)))"
proof (intro conjI impI allI)
  assume "get_flow db fid = None"
  then show "update_flow db now fid u = (None, db)" by (simp add: update_flow_def)
next
  fix f assume g: "get_flow db fid = Some f"
  let ?a = "assigned f u"
  have ch: "?a = f \<longleftrightarrow> f_name ?a = f_name f \<and> f_description ?a = f_description f"
    by (cases f) (auto simp: assigned_def)
  have nm: "f_name ?a = (case fu_name u of None \<Rightarrow> f_name f | Some n \<Rightarrow> n)"
    and ds: "f_description ?a = (case fu_description u of None \<Rightarrow> f_description f | Some d \<Rightarrow> d)"
    by (simp_all add: assigned_def)
  show "\<exists>f'. update_flow db now fid u = (Some f',
                if f' = f then db
                else db\<lparr>flows := map (\<lambda>r. if f_id r = f_id f then f' else r) (flows db)\<rparr>) \<and>
            f_name f' = (case fu_name u of None \<Rightarrow> f_name f | Some n \<Rightarrow> n) \<and>
            f_description f' = (case fu_description u of None \<Rightarrow> f_description f | Some d \<Rightarrow> d) \<and>
            f_id f' = f_id f \<and> flow_id f' = flow_id f \<and> f_user_id f' = f_user_id f \<and>
            f_created_at f' = f_created_at f \<and>
            f_updated_at f' = (if f_name f' \<noteq> f_name f \<or> f_description f' \<noteq> f_description f
                               then Some now else f_updated_at f)"
  proof (cases "?a = f")
    case True
    then have "update_flow db now fid u = (Some f, db)"
      using g by (simp add: update_flow_def foldl_setattr commit_flow_def)
    moreover note nm [unfolded True] ds [unfolded True]
    ultimately show ?thesis by (intro exI [of _ f]) simp
  next
    case False
    let ?r = "?a\<lparr>f_updated_at := Some now\<rparr>"
    have ne: "?r \<noteq> f"
    proof
      assume e: "?r = f"
      have "f_name ?a = f_name ?r" "f_description ?a = f_description ?r" by simp_all
      then have "f_name ?a = f_name f" "f_description ?a = f_description f"
        by (simp_all only: e)
      with ch False show False by simp
    qed
    have "update_flow db now fid u =
            (Some ?r, db\<lparr>flows := map (\<lambda>r. if f_id r = f_id f then ?r else r) (flows db)\<rparr>)"
      using g False by (simp add: update_flow_def foldl_setattr commit_flow_def Let_def)
    moreover have "f_name ?r \<noteq> f_name f \<or> f_description ?r \<noteq> f_description f"
      using False ch by simp
    ultimately show ?thesis using ne
      by (intro exI [of _ ?r]) (simp add: assigned_def)
  qed
qed

theorem update_flow_partial_witness:
  "get_flow db_five ''zz'' = None \<and>
   update_flow db_five 9 ''zz'' \<lparr>fu_name = Some ''x'', fu_description = None\<rparr> = (None, db_five) \<and>
   get_flow db_five ''a'' = Some (demo_flow 1 ''a'' 1) \<and>
   (\<exists>f'. fst (update_flow db_five 9 ''a'' \<lparr>fu_name = Some ''x'', fu_description = None\<rparr>) = Some f' \<and>
         f_name f' = ''x'' \<and> f_description f' = None \<and> f_created_at f' = 3 \<and>
         f_updated_at f' = Some 9)"
proof -
  let ?u = "\<lparr>fu_name = Some ''x'', fu_description = None\<rparr>"
  have z: "get_flow db_five ''zz'' = None"
    by (simp add: get_flow_def db_five_def demo_flow_def)
  have a: "get_flow db_five ''a'' = Some (demo_flow 1 ''a'' 1)"
    by (simp add: get_flow_def db_five_def demo_flow_def)
  from update_flow_partial [of db_five "''zz''" 9 ?u] z
  have n: "update_flow db_five 9 ''zz'' ?u = (None, db_five)" by simp
  from update_flow_partial [of db_five "''a''" 9 ?u] a
  obtain f' where "fst (update_flow db_five 9 ''a'' ?u) = Some f'"
    and "f_name f' = ''x''" and "f_description f' = None" and "f_created_at f' = 3"
    and "f_updated_at f' = Some 9"
    by (auto simp: demo_flow_def)
  with z a n show ?thesis by blast
qed

section \<open>Bootstrap\<close>

text \<open>
  C1, as stated: a bootstrap run on a store that has a User "root" leaves that User with
  max(1, prior count) Flows. It fails for both bootstrap procedures. \<open>lifespan\<close> does not
  look at the Flows of an existing "root": on \<open>db_root_only\<close>, where "root" owns no Flow,
  it changes nothing. \<open>init_database\<close> does look, but when the generated \<open>flow_id\<close> is
  already taken (\<open>db_collide\<close>, random value 0) the insert fails, the failure is swallowed
  and "root" still owns no Flow.
\<close>

theorem bootstrap_existing_root_counterexample:
  "find (\<lambda>x. username x = ''root'') (users db_root_only) = Some demo_root \<and>
   flows_of db_root_only (u_id demo_root) = [] \<and>
   lifespan db_root_only 0 5 = db_root_only \<and>
   length (flows_of (lifespan db_root_only 0 5) (u_id demo_root))
     \<noteq> max 1 (length (flows_of db_root_only (u_id demo_root))) \<and>
   find (\<lambda>x. username x = ''root'') (users db_collide) = Some demo_root \<and>
   flows_of db_collide (u_id demo_root) = [] \<and>
   init_database db_collide 0 5 = db_collide \<and>
   length (flows_of (init_database db_collide 0 5) (u_id demo_root))
     \<noteq> max 1 (length (flows_of db_collide (u_id demo_root)))"
proof -
  have r1: "find (\<lambda>x. username x = ''root'') (users db_root_only) = Some demo_root"
    by (simp add: db_root_only_def demo_root_def)
  have e1: "flows_of db_root_only (u_id demo_root) = []"
    by (simp add: flows_of_def db_root_only_def)
  have l: "lifespan db_root_only 0 5 = db_root_only"
    using r1 by (simp add: lifespan_def)
  have r2: "find (\<lambda>x. username x = ''root'') (users db_collide) = Some demo_root"
    by (simp add: db_collide_def demo_root_def)
  have e2: "flows_of db_collide (u_id demo_root) = []"
    by (simp add: flows_of_def db_collide_def demo_flow_def demo_root_def)
  have c: "gen_flow_id 0 \<in> set (map flow_id (flows db_collide))"
    by (simp add: gen_flow_id_zero db_collide_def demo_flow_def)
  have i: "init_database db_collide 0 5 = db_collide"
    using r2 e2 c by (simp add: init_database_def flows_of_def add_flow_def Let_def)
  show ?thesis by (simp add: r1 e1 l r2 e2 i)
qed

text \<open>
  C1, amended. When \<open>init_database\<close> runs on a store that has a User "root", it looks at the
  Flows that User owns. If there is at least one, the store is unchanged. If there is none
  and the generated \<open>flow_id\<close> is not in use, exactly one Flow is appended, the default
  Flow owned by "root", and it is then the only Flow "root" owns. If there is none and the
  generated \<open>flow_id\<close> is in use, the failed insert is swallowed and the store is
  unchanged. So, unless the run fails on such a collision, the number of Flows of "root"
  after the run is max(1, the number before); the Users are never changed.
\<close>

theorem init_database_existing_root:
  assumes "find (\<lambda>x. username x = ''root'') (users db) = Some r"
  shows "(flows_of db (u_id r) \<noteq> [] \<longrightarrow> init_database db u now = db) \<and>
         (flows_of db (u_id r) = [] \<and> gen_flow_id u \<notin> set (map flow_id (flows db)) \<longrightarrow>
            init_database db u now = db\<lparr>flows := flows db @ [bootstrap_flow db u now (u_id r)]\<rparr> \<and>
            flows_of (init_database db u now) (u_id r) = [bootstrap_flow db u now (u_id r)]) \<and>
         (flows_of db (u_id r) = [] \<and> gen_flow_id u \<in> set (map flow_id (flows db)) \<longrightarrow>
            init_database db u now = db) \<and>
         (flows_of db (u_id r) \<noteq> [] \<or> gen_flow_id u \<notin> set (map flow_id (flows db)) \<longrightarrow>
            length (flows_of (init_database db u now) (u_id r))
              = max 1 (length (flows_of db (u_id r)))) \<and>
         users (init_database db u now) = users db"
proof (cases "flows_of db (u_id r) = []")
  case True
  note eq = init_database_root_no_flows [OF assms True, of u now]
  have own: "flows_of (db\<lparr>flows := flows db @ [bootstrap_flow db u now (u_id r)]\<rparr>) (u_id r)
               = [bootstrap_flow db u now (u_id r)]"
    using True by (simp add: flows_of_def bootstrap_flow_def)
  show ?thesis
  proof (cases "gen_flow_id u \<in> set (map flow_id (flows db))")
    case collide: True
    then have "init_database db u now = db" using eq by simp
    then show ?thesis using True collide by simp
  next
    case fresh: False
    then have "init_database db u now = db\<lparr>flows := flows db @ [bootstrap_flow db u now (u_id r)]\<rparr>"
      using eq by simp
    then show ?thesis using True fresh own by simp
  qed
next
  case False
  then have "init_database db u now = db"
    using assms by (simp add: init_database_root_with_flows)
  moreover have "1 \<le> length (flows_of db (u_id r))"
    using False by (cases "flows_of db (u_id r)") simp_all
  ultimately show ?thesis using False by simp
qed

theorem init_database_existing_root_witness:
  "find (\<lambda>x. username x = ''root'') (users db_root_only) = Some demo_root \<and>
   flows_of db_root_only (u_id demo_root) = [] \<and>
   gen_flow_id 0 \<notin> set (map flow_id (flows db_root_only)) \<and>
   flows (init_database db_root_only 0 5) = [bootstrap_flow db_root_only 0 5 1] \<and>
   length (flows_of (init_database db_root_only 0 5) (u_id demo_root)) = 1 \<and>
   find (\<lambda>x. username x = ''root'') (users db_collide) = Some demo_root \<and>
   flows_of db_collide (u_id demo_root) = [] \<and>
   gen_flow_id 0 \<in> set (map flow_id (flows db_collide)) \<and>
   init_database db_collide 0 5 = db_collide \<and>
   find (\<lambda>x. username x = ''root'') (users db_five) = Some demo_root \<and>
   flows_of db_five (u_id demo_root) \<noteq> [] \<and>
   init_database db_five 0 5 = db_five"
proof -
  have r1: "find (\<lambda>x. username x = ''root'') (users db_root_only) = Some demo_root"
    by (simp add: db_root_only_def demo_root_def)
  have e1: "flows_of db_root_only (u_id demo_root) = []"
    by (simp add: flows_of_def db_root_only_def)
  have f1: "gen_flow_id 0 \<notin> set (map flow_id (flows db_root_only))"
    by (simp add: db_root_only_def)
  have r2: "find (\<lambda>x. username x = ''root'') (users db_collide) = Some demo_root"
    by (simp add: db_collide_def demo_root_def)
  have e2: "flows_of db_collide (u_id demo_root) = []"
    by (simp add: flows_of_def db_collide_def demo_flow_def demo_root_def)
  have c2: "gen_flow_id 0 \<in> set (map flow_id (flows db_collide))"
    by (simp add: gen_flow_id_zero db_collide_def demo_flow_def)
  have r3: "find (\<lambda>x. username x = ''root'') (users db_five) = Some demo_root"
    by (simp add: db_five_def demo_root_def)
  have e3: "flows_of db_five (u_id demo_root) \<noteq> []"
    by (simp add: flows_of_def db_five_def demo_flow_def demo_root_def)
  have i: "u_id demo_root = 1" by (simp add: demo_root_def)
  have fl: "flows db_root_only = []" by (simp add: db_root_only_def)
  note t = init_database_existing_root [OF r1, of 0 5]
  from t e1 f1 have eq: "init_database db_root_only 0 5 =
      db_root_only\<lparr>flows := flows db_root_only @ [bootstrap_flow db_root_only 0 5 (u_id demo_root)]\<rparr>"
    by blast
  from t e1 f1 have own: "flows_of (init_database db_root_only 0 5) (u_id demo_root) =
      [bootstrap_flow db_root_only 0 5 (u_id demo_root)]"
    by blast
  have a: "flows (init_database db_root_only 0 5) = [bootstrap_flow db_root_only 0 5 1]"
    by (simp add: eq fl i)
  have a': "length (flows_of (init_database db_root_only 0 5) (u_id demo_root)) = 1"
    by (simp add: own)
  from init_database_existing_root [OF r2, of 0 5] e2 c2
  have b: "init_database db_collide 0 5 = db_collide" by simp
  from init_database_existing_root [OF r3, of 0 5] e3
  have c: "init_database db_five 0 5 = db_five" by simp
  from r1 e1 f1 a a' r2 e2 c2 b r3 e3 c show ?thesis by blast
qed

text \<open>
  C2, as stated: a second bootstrap run never changes the Flow count. It fails for
  \<open>init_database\<close> after a first run that failed: on \<open>db_collide\<close> the first run (random
  value 0) collides and changes nothing, and the second run (random value \<open>uuid_b\<close>) adds
  a Flow.
\<close>

theorem bootstrap_idempotent_counterexample:
  "find (\<lambda>x. username x = ''root'') (users db_collide) = Some demo_root \<and>
   init_database db_collide 0 5 = db_collide \<and>
   length (flows (init_database db_collide 0 5)) = 1 \<and>
   length (flows (init_database (init_database db_collide 0 5) uuid_b 6)) = 2"
proof -
  have r2: "find (\<lambda>x. username x = ''root'') (users db_collide) = Some demo_root"
    by (simp add: db_collide_def demo_root_def)
  have e2: "flows_of db_collide (u_id demo_root) = []"
    by (simp add: flows_of_def db_collide_def demo_flow_def demo_root_def)
  have c: "gen_flow_id 0 \<in> set (map flow_id (flows db_collide))"
    by (simp add: gen_flow_id_zero db_collide_def demo_flow_def)
  have f: "gen_flow_id uuid_b \<notin> set (map flow_id (flows db_collide))"
    by (simp add: gen_flow_id_uuid_b db_collide_def demo_flow_def)
  have i: "init_database db_collide 0 5 = db_collide"
    using c by (simp add: init_database_root_no_flows [OF r2 e2])
  have j: "init_database db_collide uuid_b 6 =
             db_collide\<lparr>flows := flows db_collide @ [bootstrap_flow db_collide uuid_b 6 (u_id demo_root)]\<rparr>"
    using f by (simp add: init_database_root_no_flows [OF r2 e2])
  have l: "length (flows db_collide) = 1" by (simp add: db_collide_def)
  show ?thesis by (simp add: r2 i j l)
qed

text \<open>
  C2, amended. A second run of \<open>init_database\<close> leaves the store, hence the User count and
  the Flow count, unchanged whenever before the first run "root" owned a Flow or the first
  run's generated \<open>flow_id\<close> was not in use (always so on an empty store). A second run of
  \<open>lifespan\<close> leaves the store unchanged always. On an empty store a first run of either
  creates exactly one User, named "root", and exactly one Flow, owned by it. No sequence of
  runs of either procedure on a store with at most one User named "root" produces a second
  one.
\<close>

theorem bootstrap_idempotent:
  "(root_owns_flow db \<or> gen_flow_id u1 \<notin> set (map flow_id (flows db)) \<longrightarrow>
      init_database (init_database db u1 t1) u2 t2 = init_database db u1 t1) \<and>
   lifespan (lifespan db u1 t1) u2 t2 = lifespan db u1 t1 \<and>
   (users db = [] \<and> flows db = [] \<longrightarrow>
      root_count (init_database db u1 t1) = 1 \<and> length (users (init_database db u1 t1)) = 1 \<and>
      length (flows (init_database db u1 t1)) = 1 \<and> root_owns_flow (init_database db u1 t1) \<and>
      lifespan db u1 t1 = init_database db u1 t1) \<and>
   (root_count db \<le> 1 \<longrightarrow>
      root_count (run_many init_database db runs) \<le> 1 \<and>
      root_count (run_many lifespan db runs) \<le> 1)"
proof (intro conjI impI)
  assume "root_owns_flow db \<or> gen_flow_id u1 \<notin> set (map flow_id (flows db))"
  then have "root_owns_flow (init_database db u1 t1)" by (rule init_database_settled)
  then show "init_database (init_database db u1 t1) u2 t2 = init_database db u1 t1"
    by (rule init_database_fixed)
next
  show "lifespan (lifespan db u1 t1) u2 t2 = lifespan db u1 t1" by (rule lifespan_twice)
next
  assume e: "users db = [] \<and> flows db = []"
  then have n: "find (\<lambda>x. username x = ''root'') (users db) = None" by simp
  have i: "init_database db u1 t1 =
      db\<lparr>users := [\<lparr>u_id = 1, username = ''root'', email = Some ''root@krok-mvp.local'',
                     is_active = True, u_created_at = t1, u_updated_at = None\<rparr>],
         flows := [bootstrap_flow db u1 t1 1]\<rparr>"
    using e by (simp add: init_database_no_root [OF n] Let_def next_id_def)
  have l: "lifespan db u1 t1 = init_database db u1 t1"
    by (simp add: init_database_no_root [OF n] lifespan_no_root [OF n])
  show "root_count (init_database db u1 t1) = 1" by (simp add: i root_count_def)
  show "length (users (init_database db u1 t1)) = 1" by (simp add: i)
  show "length (flows (init_database db u1 t1)) = 1" by (simp add: i)
  show "root_owns_flow (init_database db u1 t1)"
    by (simp add: i root_owns_flow_def flows_of_def bootstrap_flow_def)
  show "lifespan db u1 t1 = init_database db u1 t1" by (rule l)
next
  assume "root_count db \<le> 1"
  then show "root_count (run_many init_database db runs) \<le> 1"
    by (rule root_count_run_many [of init_database, OF root_count_init_database])
next
  assume "root_count db \<le> 1"
  then show "root_count (run_many lifespan db runs) \<le> 1"
    by (rule root_count_run_many [of lifespan, OF root_count_lifespan])
qed

theorem bootstrap_idempotent_witness:
  "gen_flow_id 0 \<notin> set (map flow_id (flows db_empty)) \<and>
   users db_empty = [] \<and> flows db_empty = [] \<and> root_count db_empty \<le> 1 \<and>
   init_database (init_database db_empty 0 5) uuid_b 6 = init_database db_empty 0 5 \<and>
   length (users (init_database db_empty 0 5)) = 1 \<and>
   length (flows (init_database db_empty 0 5)) = 1 \<and>
   root_count (run_many init_database db_empty [(0, 5), (uuid_b, 6)]) \<le> 1 \<and>
   root_count (run_many lifespan db_empty [(0, 5), (uuid_b, 6)]) \<le> 1 \<and>
   root_owns_flow db_five \<and>
   init_database (init_database db_five 0 5) uuid_b 6 = init_database db_five 0 5"
proof -
  have f: "gen_flow_id 0 \<notin> set (map flow_id (flows db_empty))" by (simp add: db_empty_def)
  have e: "users db_empty = [] \<and> flows db_empty = []" by (simp add: db_empty_def)
  have c: "root_count db_empty \<le> 1" by (simp add: root_count_def db_empty_def)
  have o: "root_owns_flow db_five"
    by (simp add: root_owns_flow_def flows_of_def db_five_def demo_root_def demo_flow_def)
  note t1 = bootstrap_idempotent [of db_empty 0 5 uuid_b 6 "[(0, 5), (uuid_b, 6)]"]
  note t2 = bootstrap_idempotent [of db_five 0 5 uuid_b 6 "[]"]
  from t1 f e c t2 o show ?thesis by simp
qed

section \<open>Timestamps\<close>

text \<open>
  C8. For a Flow and for a User: a new row has \<open>created_at\<close> set to the time of creation and
  \<open>updated_at\<close> null, and the insert appends it and changes nothing else. An update of a
  stored row never changes its id or \<open>created_at\<close>. When the update is mutating, that is
  when a stored field gets a different value, the row with that id is replaced in the store
  by the returned row, whose \<open>updated_at\<close> is the time of the update, and every other row
  is as it was; when it changes nothing the store is unchanged and \<open>updated_at\<close> is as it
  was (null, if the row was never mutated). In a store with unique keys the row found
  afterwards is the returned one. So the \<open>updated_at\<close> of a stored row stays null until the
  first mutating update of that row. For a User the store refuses a null username or
  \<open>is_active\<close> and a new username that is in use, and then nothing is written. The User
  operations \<open>create_user\<close> and \<open>update_user\<close> follow the spec; the User insert of
  \<open>init_database\<close> is \<open>add_user\<close>.
\<close>

theorem timestamps_lifecycle:
  "(\<forall>f db'. create_flow db now fl = Inr (f, db') \<longrightarrow>
       f_created_at f = now \<and> f_updated_at f = None \<and> db' = db\<lparr>flows := flows db @ [f]\<rparr>) \<and>
   (\<forall>f. get_flow db fid = Some f \<longrightarrow>
      (\<exists>f'. update_flow db now fid fu =
             (Some f', if f' = f then db
                       else db\<lparr>flows := map (\<lambda>r. if f_id r = f_id f then f' else r) (flows db)\<rparr>) \<and>
           f_id f' = f_id f \<and> flow_id f' = flow_id f \<and>
           f_created_at f' = f_created_at f \<and>
           f_updated_at f' = (if f_name f' \<noteq> f_name f \<or> f_description f' \<noteq> f_description f
                              then Some now else f_updated_at f) \<and>
           (wf_store db \<longrightarrow> get_flow (snd (update_flow db now fid fu)) fid = Some f'))) \<and>
   (\<forall>x db'. add_user db now un em act = Inr (x, db') \<longrightarrow>
       u_created_at x = now \<and> u_updated_at x = None \<and> db' = db\<lparr>users := users db @ [x]\<rparr>) \<and>
   create_user db now usr = add_user db now (uc_username usr) (uc_email usr) (uc_is_active usr) \<and>
   (\<forall>x. get_user db uid = Some x \<longrightarrow>
      (user_update_refused db x uu \<longrightarrow> update_user db now uid uu = Inl IntegrityError) \<and>
      (\<not> user_update_refused db x uu \<longrightarrow>
         (\<exists>x'. update_user db now uid uu =
                  Inr (Some x', if x' = x then db
                                else db\<lparr>users := map (\<lambda>r. if u_id r = u_id x then x' else r)
                                                   (users db)\<rparr>) \<and>
            u_id x' = u_id x \<and> u_created_at x' = u_created_at x \<and>
            u_updated_at x' = (if username x' \<noteq> username x \<or> email x' \<noteq> email x \<or>
                                  is_active x' \<noteq> is_active x
                               then Some now else u_updated_at x) \<and>
            (wf_store db \<longrightarrow>
               get_user (if x' = x then db
                         else db\<lparr>users := map (\<lambda>r. if u_id r = u_id x then x' else r)
                                            (users db)\<rparr>) uid = Some x'))))"
proof -
  have a: "\<forall>f db'. create_flow db now fl = Inr (f, db') \<longrightarrow>
       f_created_at f = now \<and> f_updated_at f = None \<and> db' = db\<lparr>flows := flows db @ [f]\<rparr>"
    using flow_timestamps_on_create by blast
  have b: "\<forall>f. get_flow db fid = Some f \<longrightarrow>
      (\<exists>f'. update_flow db now fid fu =
             (Some f', if f' = f then db
                       else db\<lparr>flows := map (\<lambda>r. if f_id r = f_id f then f' else r) (flows db)\<rparr>) \<and>
           f_id f' = f_id f \<and> flow_id f' = flow_id f \<and>
           f_created_at f' = f_created_at f \<and>
           f_updated_at f' = (if f_name f' \<noteq> f_name f \<or> f_description f' \<noteq> f_description f
                              then Some now else f_updated_at f) \<and>
           (wf_store db \<longrightarrow> get_flow (snd (update_flow db now fid fu)) fid = Some f'))"
    using flow_timestamps_on_update by blast
  have c: "\<forall>x db'. add_user db now un em act = Inr (x, db') \<longrightarrow>
       u_created_at x = now \<and> u_updated_at x = None \<and> db' = db\<lparr>users := users db @ [x]\<rparr>"
    using user_timestamps_on_create by blast
  have d: "create_user db now usr = add_user db now (uc_username usr) (uc_email usr) (uc_is_active usr)"
    by (simp add: create_user_def)
  have e: "\<forall>x. get_user db uid = Some x \<longrightarrow>
      (user_update_refused db x uu \<longrightarrow> update_user db now uid uu = Inl IntegrityError) \<and>
      (\<not> user_update_refused db x uu \<longrightarrow>
         (\<exists>x'. update_user db now uid uu =
                  Inr (Some x', if x' = x then db
                                else db\<lparr>users := map (\<lambda>r. if u_id r = u_id x then x' else r)
                                                   (users db)\<rparr>) \<and>
            u_id x' = u_id x \<and> u_created_at x' = u_created_at x \<and>
            u_updated_at x' = (if username x' \<noteq> username x \<or> email x' \<noteq> email x \<or>
                                  is_active x' \<noteq> is_active x
                               then Some now else u_updated_at x) \<and>
            (wf_store db \<longrightarrow>
               get_user (if x' = x then db
                         else db\<lparr>users := map (\<lambda>r. if u_id r = u_id x then x' else r)
                                            (users db)\<rparr>) uid = Some x')))"
    using user_timestamps_on_update by blast
  from a b c d e show ?thesis by (intro conjI)
qed

theorem timestamps_lifecycle_witness:
  "create_flow db_five 9 \<lparr>fc_flow_id = ''f'', fc_name = ''nm'', fc_description = None, fc_user_id = 2\<rparr>
     = Inr (\<lparr>f_id = 6, flow_id = ''f'', f_name = ''nm'', f_description = None, f_user_id = 2,
             f_created_at = 9, f_updated_at = None\<rparr>,
            db_five\<lparr>flows := flows db_five @
              [\<lparr>f_id = 6, flow_id = ''f'', f_name = ''nm'', f_description = None, f_user_id = 2,
                f_created_at = 9, f_updated_at = None\<rparr>]\<rparr>) \<and>
   get_flow db_five ''a'' = Some (demo_flow 1 ''a'' 1) \<and> wf_store db_five \<and>
   get_flow (snd (update_flow db_five 9 ''a'' \<lparr>fu_name = Some ''x'', fu_description = None\<rparr>)) ''a''
     = Some \<lparr>f_id = 1, flow_id = ''a'', f_name = ''x'', f_description = None, f_user_id = 1,
             f_created_at = 3, f_updated_at = Some 9\<rparr> \<and>
   update_flow db_five 9 ''a'' \<lparr>fu_name = Some ''n'', fu_description = None\<rparr>
     = (Some (demo_flow 1 ''a'' 1), db_five) \<and>
   f_updated_at (demo_flow 1 ''a'' 1) = None \<and>
   add_user db_five 9 ''bob'' None True
     = Inr (\<lparr>u_id = 3, username = ''bob'', email = None, is_active = True, u_created_at = 9,
             u_updated_at = None\<rparr>,
            db_five\<lparr>users := users db_five @
              [\<lparr>u_id = 3, username = ''bob'', email = None, is_active = True, u_created_at = 9,
                u_updated_at = None\<rparr>]\<rparr>) \<and>
   get_user db_five 2 = Some demo_alice \<and>
   \<not> user_update_refused db_five demo_alice
       \<lparr>uu_username = None, uu_email = Some (Some ''a@b''), uu_is_active = None\<rparr> \<and>
   (\<exists>x'. update_user db_five 9 2
            \<lparr>uu_username = None, uu_email = Some (Some ''a@b''), uu_is_active = None\<rparr>
          = Inr (Some x', db_five\<lparr>users := [demo_root, x']\<rparr>) \<and>
         email x' = Some ''a@b'' \<and> u_created_at x' = 2 \<and> u_updated_at x' = Some 9) \<and>
   user_update_refused db_five demo_alice
       \<lparr>uu_username = Some (Some ''root''), uu_email = None, uu_is_active = None\<rparr> \<and>
   update_user db_five 9 2 \<lparr>uu_username = Some (Some ''root''), uu_email = None, uu_is_active = None\<rparr>
     = Inl IntegrityError \<and>
   user_update_refused db_five demo_alice
       \<lparr>uu_username = None, uu_email = None, uu_is_active = Some None\<rparr> \<and>
   update_user db_five 9 2 \<lparr>uu_username = None, uu_email = None, uu_is_active = Some None\<rparr>
     = Inl IntegrityError"
proof -
  let ?fl = "\<lparr>fc_flow_id = ''f'', fc_name = ''nm'', fc_description = None, fc_user_id = 2\<rparr>"
  let ?row = "\<lparr>f_id = 6, flow_id = ''f'', f_name = ''nm'', f_description = None, f_user_id = 2,
               f_created_at = 9, f_updated_at = None\<rparr>"
  let ?urow = "\<lparr>u_id = 3, username = ''bob'', email = None, is_active = True, u_created_at = 9,
                u_updated_at = None\<rparr>"
  let ?fu = "\<lparr>fu_name = Some ''x'', fu_description = None\<rparr>"
  let ?fn = "\<lparr>fu_name = Some ''n'', fu_description = None\<rparr>"
  let ?uu = "\<lparr>uu_username = None, uu_email = Some (Some ''a@b''), uu_is_active = None\<rparr>"
  let ?ur = "\<lparr>uu_username = Some (Some ''root''), uu_email = None, uu_is_active = None\<rparr>"
  let ?un = "\<lparr>uu_username = None, uu_email = None, uu_is_active = Some None\<rparr>"
  let ?uc = "\<lparr>uc_username = ''bob'', uc_email = None, uc_is_active = True\<rparr>"
  let ?X = "\<lparr>f_id = 1, flow_id = ''a'', f_name = ''x'', f_description = None, f_user_id = 1,
             f_created_at = 3, f_updated_at = Some 9\<rparr>"
  have cf: "create_flow db_five 9 ?fl = Inr (?row, db_five\<lparr>flows := flows db_five @ [?row]\<rparr>)"
    by (simp add: create_flow_def add_flow_def next_id_def db_five_def demo_flow_def
        demo_root_def demo_alice_def Let_def)
  have gf: "get_flow db_five ''a'' = Some (demo_flow 1 ''a'' 1)"
    by (simp add: get_flow_def db_five_def demo_flow_def)
  have wf: "wf_store db_five"
    by (simp add: wf_store_def db_five_def demo_flow_def demo_root_def demo_alice_def)
  have au: "add_user db_five 9 ''bob'' None True
              = Inr (?urow, db_five\<lparr>users := users db_five @ [?urow]\<rparr>)"
    by (simp add: add_user_def next_id_def db_five_def demo_root_def demo_alice_def Let_def)
  have gu: "get_user db_five 2 = Some demo_alice"
    by (simp add: get_user_def db_five_def demo_root_def demo_alice_def)
  have nu: "f_updated_at (demo_flow 1 ''a'' 1) = None" by (simp add: demo_flow_def)
  have uf: "fst (update_flow db_five 9 ''a'' ?fu) = Some ?X"
    by (simp add: update_flow_def get_flow_def dict_exclude_unset_def commit_flow_def Let_def
        db_five_def demo_flow_def)
  have un: "fst (update_flow db_five 9 ''a'' ?fn) = Some (demo_flow 1 ''a'' 1)"
    by (simp add: update_flow_def get_flow_def dict_exclude_unset_def commit_flow_def Let_def
        db_five_def demo_flow_def)
  have acc: "\<not> user_update_refused db_five demo_alice ?uu"
    by (simp add: user_update_refused_def)
  have rf1: "user_update_refused db_five demo_alice ?ur"
    by (simp add: user_update_refused_def db_five_def demo_root_def demo_alice_def)
  have rf2: "user_update_refused db_five demo_alice ?un"
    by (simp add: user_update_refused_def)
  have us: "users db_five = [demo_root, demo_alice]" by (simp add: db_five_def)
  have ids: "u_id demo_root \<noteq> u_id demo_alice" "email demo_alice = None"
    "u_created_at demo_alice = 2" "u_updated_at demo_alice = None"
    by (simp_all add: demo_root_def demo_alice_def)
  note t1 = timestamps_lifecycle [of db_five 9 ?fl "''a''" ?fu "''bob''" None True ?uc 2 ?uu]
  note t2 = timestamps_lifecycle [of db_five 9 ?fl "''a''" ?fn "''bob''" None True ?uc 2 ?ur]
  note t3 = timestamps_lifecycle [of db_five 9 ?fl "''a''" ?fn "''bob''" None True ?uc 2 ?un]
  from t1 gf wf obtain f' where
      u1: "fst (update_flow db_five 9 ''a'' ?fu) = Some f'"
      and p1: "get_flow (snd (update_flow db_five 9 ''a'' ?fu)) ''a'' = Some f'"
    by fastforce
  from u1 uf have "f' = ?X" by simp
  with p1 have E1: "get_flow (snd (update_flow db_five 9 ''a'' ?fu)) ''a'' = Some ?X" by simp
  from t2 gf obtain g' where
      u2: "update_flow db_five 9 ''a'' ?fn =
             (Some g', if g' = demo_flow 1 ''a'' 1 then db_five
                       else db_five\<lparr>flows := map (\<lambda>r. if f_id r = f_id (demo_flow 1 ''a'' 1)
                                                       then g' else r) (flows db_five)\<rparr>)"
    by blast
  with un have "g' = demo_flow 1 ''a'' 1" by simp
  with u2 have E2: "update_flow db_five 9 ''a'' ?fn = (Some (demo_flow 1 ''a'' 1), db_five)"
    by simp
  from t1 gu acc obtain x' where
      v1: "update_user db_five 9 2 ?uu =
             Inr (Some x', if x' = demo_alice then db_five
                           else db_five\<lparr>users := map (\<lambda>r. if u_id r = u_id demo_alice then x' else r)
                                                     (users db_five)\<rparr>)"
      and vc: "u_created_at x' = u_created_at demo_alice"
      and vu: "u_updated_at x' = (if username x' \<noteq> username demo_alice \<or>
                 email x' \<noteq> email demo_alice \<or> is_active x' \<noteq> is_active demo_alice
                 then Some 9 else u_updated_at demo_alice)"
    by blast
  have ev: "\<exists>d. update_user db_five 9 2 ?uu =
              Inr (Some (demo_alice\<lparr>email := Some ''a@b'', u_updated_at := Some 9\<rparr>), d)"
    by (simp add: update_user_def get_user_def user_dict_exclude_unset_def commit_user_def Let_def
        attrs_of_def db_five_def demo_root_def demo_alice_def)
  with v1 have vx: "x' = demo_alice\<lparr>email := Some ''a@b'', u_updated_at := Some 9\<rparr>" by auto
  then have em: "email x' = Some ''a@b''" by simp
  then have ne: "x' \<noteq> demo_alice" using ids(2) by auto
  have h1: "u_created_at x' = 2" using vc ids by simp
  have h2: "u_updated_at x' = Some 9" using vu em ids by simp
  have "update_user db_five 9 2 ?uu = Inr (Some x', db_five\<lparr>users := [demo_root, x']\<rparr>)"
    using v1 ne ids(1) by (simp add: us)
  with em h1 h2 have E3: "\<exists>x'. update_user db_five 9 2 ?uu
          = Inr (Some x', db_five\<lparr>users := [demo_root, x']\<rparr>) \<and>
         email x' = Some ''a@b'' \<and> u_created_at x' = 2 \<and> u_updated_at x' = Some 9"
    by blast
  from t2 gu rf1 have E4: "update_user db_five 9 2 ?ur = Inl IntegrityError" by blast
  from t3 gu rf2 have E5: "update_user db_five 9 2 ?un = Inl IntegrityError" by blast
  from cf gf wf E1 E2 nu au gu acc E3 rf1 E4 rf2 E5 show ?thesis by blast
qed

end
